theory Spec2Isabelle
  imports Complex_Main
begin

section \<open>The audio receiver: data model\<close>

text \<open>
  The development embeds \<^verbatim>\<open>agent_framework/audio/receiver.py\<close> and
  \<^verbatim>\<open>agent_framework/audio/transcription.py\<close>.

  Conventions of the embedding.
  \<^item> A Python \<^verbatim>\<open>float\<close> is a \<^typ>\<open>real\<close> and a Python \<^verbatim>\<open>int\<close> an \<^typ>\<open>int\<close>:
    sums and quotients are exact, there is no rounding, no overflow and no infinity. The one
    special float kept is the \<^verbatim>\<open>nan\<close> that \<^verbatim>\<open>np.mean\<close> gives on an array without
    elements; it is the value \<open>None\<close> of \<open>rms\<close>, and every comparison with it is false.
  \<^item> A block \<^verbatim>\<open>indata\<close> of shape \<^verbatim>\<open>(frames, channels)\<close> is the list of its samples in
    row-major order. \<^verbatim>\<open>np.concatenate\<close> of blocks of one stream (all with the same number of
    channels) is then list concatenation, and the mean over all elements is the mean over
    the list. The number of rows is the callback's own argument \<^verbatim>\<open>frames\<close>.
  \<^item> Every \<^verbatim>\<open>raise\<close> is a value \<open>Inl e\<close>; the state at the moment of the raise is not kept.
  \<^item> The logger is a list of records (level and the constant part of the message) in the
    state, the oldest first.
\<close>

datatype py_exception =
    ZeroDivisionError | ValueError | RuntimeError | IndexError | KeyError | AttributeError
  | OtherException string

datatype log_level = DEBUG | INFO | WARNING | ERROR

type_synonym log_record = "log_level \<times> string"

type_synonym audio = "real list"

text \<open>
  \<^verbatim>\<open>AudioConfig\<close>, the fields that the modelled methods read. (\<^verbatim>\<open>channels\<close>,
  \<^verbatim>\<open>device_index\<close> and \<^verbatim>\<open>post_roll\<close> are read only when the stream is opened or not at all.)
\<close>

record audio_config =
  sample_rate :: int
  audio_threshold :: real
  silence_threshold :: real
  min_duration :: real
  max_duration :: real
  pre_roll :: real
  queue_size :: int

text \<open>
  \<^verbatim>\<open>self.loop\<close> is \<^verbatim>\<open>None\<close> until \<^verbatim>\<open>start()\<close> stores the running loop. A loop that has been
  closed makes \<^verbatim>\<open>call_soon_threadsafe\<close> raise \<^verbatim>\<open>RuntimeError\<close>.
\<close>

datatype event_loop = LoopRunning | LoopClosed

text \<open>
  The coroutine \<^verbatim>\<open>_process_audio_queue\<close> is suspended either before the test of its
  \<^verbatim>\<open>while\<close> condition, or inside \<^verbatim>\<open>await self.audio_queue.get()\<close>, or it has returned.
\<close>

datatype drain_pc = LoopHead | AwaitGet | Returned

text \<open>
  The mutable attributes of an \<^verbatim>\<open>AudioReceiver\<close>. \<open>queue_items\<close> is the content of
  \<^verbatim>\<open>self.audio_queue\<close> (head first); \<open>scheduled\<close> holds the arguments of the
  \<^verbatim>\<open>audio_queue.put\<close> coroutines handed to the loop by \<^verbatim>\<open>call_soon_threadsafe\<close> that have
  not yet put their item (in the order of the calls); \<open>sink_calls\<close> lists the arguments with
  which \<^verbatim>\<open>self.on_transcription\<close> has been called and \<open>debug_saves\<close> those of
  \<^verbatim>\<open>_save_debug_data\<close>; \<open>logged\<close> is what the loggers have received.
\<close>

record receiver =
  loop :: "event_loop option"
  queue_items :: "audio list"
  scheduled :: "audio list"
  terminate_flag :: bool
  drain :: drain_pc
  pre_roll_buffer :: "audio list"
  recording :: bool
  audio_frames :: "audio list"
  silence_counter :: real
  recording_duration :: real
  logged :: "log_record list"
  sink_calls :: "string list"
  debug_saves :: "(audio \<times> string) list"

text \<open>The state after \<^verbatim>\<open>__init__\<close>.\<close>

definition init_receiver :: receiver where
  "init_receiver =
     \<lparr>loop = None, queue_items = [], scheduled = [], terminate_flag = False,
      drain = LoopHead, pre_roll_buffer = [], recording = False, audio_frames = [],
      silence_counter = 0, recording_duration = 0, logged = [], sink_calls = [],
      debug_saves = []\<rparr>"

definition log_msg :: "log_level \<Rightarrow> string \<Rightarrow> receiver \<Rightarrow> receiver" where
  "log_msg lvl msg s = s\<lparr>logged := logged s @ [(lvl, msg)]\<rparr>"

section \<open>The segment detector\<close>

text \<open>\<^verbatim>\<open>np.sqrt(np.mean(np.square(indata)))\<close>; \<open>None\<close> is \<^verbatim>\<open>nan\<close>.\<close>

definition rms :: "audio \<Rightarrow> real option" where
  "rms indata =
     (if indata = [] then None
      else Some (sqrt (sum_list (map (\<lambda>x. x * x) indata) / real (length indata))))"

text \<open>\<^verbatim>\<open>rms > self.config.audio_threshold\<close> and \<^verbatim>\<open>rms <= self.config.audio_threshold\<close>.\<close>

definition rms_gt :: "real option \<Rightarrow> real \<Rightarrow> bool" where
  "rms_gt r t = (case r of None \<Rightarrow> False | Some x \<Rightarrow> x > t)"

definition rms_le :: "real option \<Rightarrow> real \<Rightarrow> bool" where
  "rms_le r t = (case r of None \<Rightarrow> False | Some x \<Rightarrow> x \<le> t)"

text \<open>\<^verbatim>\<open>int(x)\<close> on a float: truncation towards zero.\<close>

definition py_int :: "real \<Rightarrow> int" where
  "py_int x = (if 0 \<le> x then \<lfloor>x\<rfloor> else \<lceil>x\<rceil>)"

text \<open>
  \<^verbatim>\<open>int(self.config.pre_roll * self.config.sample_rate / frames)\<close>, for \<^verbatim>\<open>frames\<close> other
  than 0 (the callback raises before it on 0).
\<close>

definition pre_roll_frames :: "audio_config \<Rightarrow> int \<Rightarrow> int" where
  "pre_roll_frames cfg frames =
     py_int (pre_roll cfg * real_of_int (sample_rate cfg) / real_of_int frames)"

definition start_recording :: "receiver \<Rightarrow> receiver" where
  "start_recording s =
     log_msg DEBUG ''Started recording''
       (s\<lparr>recording := True, audio_frames := pre_roll_buffer s,
          silence_counter := 0, recording_duration := 0\<rparr>)"

definition should_stop_recording :: "audio_config \<Rightarrow> receiver \<Rightarrow> bool" where
  "should_stop_recording cfg s \<longleftrightarrow>
     (silence_counter s \<ge> silence_threshold cfg \<or>
      recording_duration s \<ge> max_duration cfg) \<and>
     recording_duration s \<ge> min_duration cfg"

text \<open>
  \<^verbatim>\<open>asyncio.Queue.full()\<close>: a queue made with \<^verbatim>\<open>maxsize <= 0\<close> is never full.
\<close>

definition queue_full :: "audio_config \<Rightarrow> receiver \<Rightarrow> bool" where
  "queue_full cfg s \<longleftrightarrow>
     0 < queue_size cfg \<and> queue_size cfg \<le> int (length (queue_items s))"

text \<open>
  \<^verbatim>\<open>_stop_recording\<close>. \<^verbatim>\<open>np.concatenate\<close> raises \<^verbatim>\<open>ValueError\<close> on an empty list, outside
  the \<^verbatim>\<open>try\<close>. Inside it, \<^verbatim>\<open>call_soon_threadsafe\<close> either raises \<^verbatim>\<open>RuntimeError\<close> (closed
  loop), which is caught and logged, or registers the callback that starts
  \<^verbatim>\<open>self.audio_queue.put(audio_data)\<close>.
\<close>

definition stop_recording :: "audio_config \<Rightarrow> receiver \<Rightarrow> py_exception + receiver" where
  "stop_recording cfg s =
     (let s1 = s\<lparr>recording := False\<rparr> in
      if audio_frames s1 = [] then Inl ValueError
      else
        let audio_data = concat (audio_frames s1);
            s2 = (if loop s1 \<noteq> None \<and> \<not> queue_full cfg s1 then
                    (if loop s1 = Some LoopClosed then
                       log_msg ERROR ''Failed to enqueue audio data'' s1
                     else
                       log_msg DEBUG ''Queued audio for processing''
                         (s1\<lparr>scheduled := scheduled s1 @ [audio_data]\<rparr>))
                  else
                    log_msg WARNING
                      ''Audio queue full or event loop not set, dropping audio frame'' s1)
        in Inr (s2\<lparr>audio_frames := []\<rparr>))"

text \<open>
  \<^verbatim>\<open>_handle_recording\<close>. \<^verbatim>\<open>frames / self.config.sample_rate\<close> divides two \<^verbatim>\<open>int\<close>s and
  raises \<^verbatim>\<open>ZeroDivisionError\<close> when the sample rate is 0.
\<close>

definition handle_recording ::
  "audio_config \<Rightarrow> audio \<Rightarrow> real option \<Rightarrow> int \<Rightarrow> receiver \<Rightarrow> py_exception + receiver" where
  "handle_recording cfg indata r frames s =
     (let s1 = s\<lparr>audio_frames := audio_frames s @ [indata]\<rparr> in
      if sample_rate cfg = 0 then Inl ZeroDivisionError
      else
        let frame_duration = real_of_int frames / real_of_int (sample_rate cfg);
            s2 = s1\<lparr>recording_duration := recording_duration s1 + frame_duration\<rparr>;
            s3 = (if rms_le r (audio_threshold cfg)
                  then s2\<lparr>silence_counter := silence_counter s2 + frame_duration\<rparr>
                  else s2\<lparr>silence_counter := 0\<rparr>)
        in if should_stop_recording cfg s3 then stop_recording cfg s3 else Inr s3)"

text \<open>
  \<^verbatim>\<open>_audio_callback(indata, frames, time_info, status)\<close>; \<open>status\<close> is the truth value of
  the stream's status flags, \<^verbatim>\<open>time_info\<close> is not read. The division by \<^verbatim>\<open>frames\<close> raises
  \<^verbatim>\<open>ZeroDivisionError\<close> on 0.
\<close>

definition audio_callback ::
  "audio_config \<Rightarrow> audio \<Rightarrow> int \<Rightarrow> bool \<Rightarrow> receiver \<Rightarrow> py_exception + receiver" where
  "audio_callback cfg indata frames status s =
     (let s0 = (if status then log_msg WARNING ''Audio stream status'' s else s);
          r = rms indata;
          s1 = s0\<lparr>pre_roll_buffer := pre_roll_buffer s0 @ [indata]\<rparr>
      in if frames = 0 then Inl ZeroDivisionError
         else
           let s2 = (if int (length (pre_roll_buffer s1)) > pre_roll_frames cfg frames
                     then s1\<lparr>pre_roll_buffer := tl (pre_roll_buffer s1)\<rparr> else s1);
               s3 = (if \<not> recording s2 \<and> rms_gt r (audio_threshold cfg)
                     then start_recording s2 else s2)
           in if recording s3 then handle_recording cfg indata r frames s3 else Inr s3)"

text \<open>
  The stream calls the callback once per block: a run over a list of calls
  \<open>(indata, frames, status)\<close>, which ends at the first exception.
\<close>

type_synonym callback_args = "audio \<times> int \<times> bool"

fun run_callbacks ::
  "audio_config \<Rightarrow> callback_args list \<Rightarrow> receiver \<Rightarrow> py_exception + receiver" where
  "run_callbacks cfg [] s = Inr s"
| "run_callbacks cfg ((indata, frames, status) # cs) s =
     (case audio_callback cfg indata frames status s of
        Inl e \<Rightarrow> Inl e
      | Inr s' \<Rightarrow> run_callbacks cfg cs s')"

text \<open>
  Lines 126 to 135 of the callback on their own (the status warning and the update of the
  pre-roll buffer), for \<^verbatim>\<open>frames\<close> other than 0. The callback is shown below to be this
  update followed by the state test.
\<close>

definition update_pre_roll :: "audio_config \<Rightarrow> audio \<Rightarrow> int \<Rightarrow> bool \<Rightarrow> receiver \<Rightarrow> receiver" where
  "update_pre_roll cfg indata frames status s =
     (let s0 = (if status then log_msg WARNING ''Audio stream status'' s else s);
          s1 = s0\<lparr>pre_roll_buffer := pre_roll_buffer s0 @ [indata]\<rparr>
      in if int (length (pre_roll_buffer s1)) > pre_roll_frames cfg frames
         then s1\<lparr>pre_roll_buffer := tl (pre_roll_buffer s1)\<rparr> else s1)"

text \<open>
  The capacity of the pre-roll buffer in the words of the specification:
  \<open>N = ceil(pre_roll_seconds \<times> sample_rate / frame_len)\<close>.
\<close>

definition spec_pre_roll_capacity :: "audio_config \<Rightarrow> int \<Rightarrow> int" where
  "spec_pre_roll_capacity cfg frame_len =
     \<lceil>pre_roll cfg * real_of_int (sample_rate cfg) / real_of_int frame_len\<rceil>"

section \<open>The hand-off queue and the drain loop\<close>

text \<open>
  The event loop and \<^verbatim>\<open>asyncio.Queue\<close> are library code. Their behaviour is modelled as
  documented: callbacks registered with \<^verbatim>\<open>call_soon_threadsafe\<close> run in the order of
  registration; \<^verbatim>\<open>Queue.put\<close> appends its item at the tail when the queue is not full and
  waits otherwise; \<^verbatim>\<open>Queue.get\<close> removes the head and waits while the queue is empty. A
  step that has to wait is \<open>None\<close>.
\<close>

definition loop_put :: "audio_config \<Rightarrow> receiver \<Rightarrow> receiver option" where
  "loop_put cfg s =
     (case scheduled s of
        [] \<Rightarrow> None
      | audio_data # rest \<Rightarrow>
          if queue_full cfg s then None
          else Some (s\<lparr>queue_items := queue_items s @ [audio_data], scheduled := rest\<rparr>))"

section \<open>Transcription\<close>

text \<open>\<^verbatim>\<open>TranscriptionConfig\<close> and \<^verbatim>\<open>TranscriptionResult\<close> (without the free-form metadata).\<close>

record transcription_config =
  tc_sample_rate :: int
  tc_language :: string
  tc_project_id :: "string option"
  tc_api_key :: "string option"

record transcription_result =
  result_text :: string
  confidence :: real
  result_language :: string

text \<open>
  What \<^verbatim>\<open>TranscriptionService.transcribe\<close> does for its caller: the records it logs, and
  either an exception or an optional result.
\<close>

type_synonym transcribe_fn =
  "audio \<Rightarrow> log_record list \<times> (py_exception + transcription_result option)"

text \<open>
  \<^verbatim>\<open>str.strip()\<close>: the white-space characters below code point 256 are removed at both
  ends. \<^verbatim>\<open>s.split('-')[0]\<close> is the part of \<open>s\<close> before the first hyphen.
\<close>

definition py_isspace :: "char \<Rightarrow> bool" where
  "py_isspace c \<longleftrightarrow>
     (let n = (of_char c :: nat) in (9 \<le> n \<and> n \<le> 13) \<or> (28 \<le> n \<and> n \<le> 32) \<or> n = 133 \<or> n = 160)"

definition py_strip :: "string \<Rightarrow> string" where
  "py_strip s = rev (dropWhile py_isspace (rev (dropWhile py_isspace s)))"

definition split_hyphen_first :: "string \<Rightarrow> string" where
  "split_hyphen_first s = takeWhile (\<lambda>c. c \<noteq> CHR ''-'') s"

text \<open>
  The services behind the two backends are external. \<^verbatim>\<open>sf.write\<close> (in \<^verbatim>\<open>_prepare_audio\<close>)
  and the client calls are parameters that either raise or return; a client that is \<open>None\<close>
  is the attribute \<^verbatim>\<open>self.client\<close> missing because \<^verbatim>\<open>initialize()\<close> has not run. Exceptions
  are instances of \<^verbatim>\<open>Exception\<close>; \<^verbatim>\<open>KeyboardInterrupt\<close> and \<^verbatim>\<open>SystemExit\<close> are not modelled.
\<close>

type_synonym wav_bytes = string

type_synonym sf_write_fn = "audio \<Rightarrow> int \<Rightarrow> py_exception + wav_bytes"

record recognition_alternative =
  transcript :: string
  alt_confidence :: real

record recognize_request =
  recognizer :: string
  language_codes :: "string list"
  model :: string
  content :: wav_bytes

text \<open>A \<^verbatim>\<open>RecognizeResponse\<close> is the list of its results, each the list of its alternatives.\<close>

type_synonym recognize_response = "recognition_alternative list list"

type_synonym speech_client = "recognize_request \<Rightarrow> py_exception + recognize_response"

definition py_str_opt :: "string option \<Rightarrow> string" where
  "py_str_opt x = (case x of None \<Rightarrow> ''None'' | Some v \<Rightarrow> v)"

text \<open>The body of the \<^verbatim>\<open>try\<close> of \<^verbatim>\<open>GoogleChirpService.transcribe\<close>.\<close>

definition chirp_try ::
  "transcription_config \<Rightarrow> sf_write_fn \<Rightarrow> speech_client option \<Rightarrow> transcribe_fn" where
  "chirp_try tc sf_write client audio_data =
     (case sf_write audio_data (tc_sample_rate tc) of
        Inl e \<Rightarrow> ([], Inl e)
      | Inr audio_content \<Rightarrow>
          (let request =
                \<lparr>recognizer =
                   ''projects/'' @ py_str_opt (tc_project_id tc) @
                   ''/locations/us-central1/recognizers/_'',
                 language_codes = [tc_language tc], model = ''chirp'',
                 content = audio_content\<rparr>;
              lg = [(DEBUG, ''Sending audio to Google Chirp...'')]
          in (case client of
               None \<Rightarrow> (lg, Inl AttributeError)
             | Some recognize \<Rightarrow>
                 (case recognize request of
                    Inl e \<Rightarrow> (lg, Inl e)
                  | Inr response \<Rightarrow>
                      (case response of
                         [] \<Rightarrow> (lg, Inr None)
                       | first_result # _ \<Rightarrow>
                           (case first_result of
                              [] \<Rightarrow> (lg, Inl IndexError)
                            | result # _ \<Rightarrow>
                                (lg, Inr (Some
                                   \<lparr>result_text = py_strip (transcript result),
                                    confidence = alt_confidence result,
                                    result_language = tc_language tc\<rparr>))))))))"

text \<open>\<^verbatim>\<open>GoogleChirpService.transcribe\<close>: the \<^verbatim>\<open>try\<close> and its \<^verbatim>\<open>except Exception\<close>.\<close>

definition chirp_transcribe ::
  "transcription_config \<Rightarrow> sf_write_fn \<Rightarrow> speech_client option \<Rightarrow> transcribe_fn" where
  "chirp_transcribe tc sf_write client audio_data =
     (case chirp_try tc sf_write client audio_data of
        (lg, Inl e) \<Rightarrow> (lg @ [(ERROR, ''Google Chirp transcription error'')], Inr None)
      | (lg, Inr r) \<Rightarrow> (lg, Inr r))"

record whisper_request =
  whisper_model :: string
  audio_file :: wav_bytes
  file_name :: string
  whisper_language :: string

text \<open>The response of the Whisper client is a dictionary from keys to strings.\<close>

type_synonym whisper_client = "whisper_request \<Rightarrow> py_exception + (string \<rightharpoonup> string)"

definition whisper_try ::
  "transcription_config \<Rightarrow> sf_write_fn \<Rightarrow> whisper_client option \<Rightarrow> transcribe_fn" where
  "whisper_try tc sf_write client audio_data =
     (case sf_write audio_data (tc_sample_rate tc) of
        Inl e \<Rightarrow> ([], Inl e)
      | Inr audio_buffer \<Rightarrow>
          (let lg = [(DEBUG, ''Sending audio to Whisper...'')] in
          (case client of
            None \<Rightarrow> (lg, Inl AttributeError)
          | Some create \<Rightarrow>
              (case create \<lparr>whisper_model = ''whisper-1'', audio_file = audio_buffer,
                            file_name = ''audio.wav'',
                            whisper_language = split_hyphen_first (tc_language tc)\<rparr> of
                 Inl e \<Rightarrow> (lg, Inl e)
               | Inr response \<Rightarrow>
                   (case response ''text'' of
                      None \<Rightarrow> (lg, Inl KeyError)
                    | Some t \<Rightarrow>
                        (lg, Inr (Some \<lparr>result_text = py_strip t, confidence = 1,
                                        result_language = tc_language tc\<rparr>)))))))"

definition whisper_transcribe ::
  "transcription_config \<Rightarrow> sf_write_fn \<Rightarrow> whisper_client option \<Rightarrow> transcribe_fn" where
  "whisper_transcribe tc sf_write client audio_data =
     (case whisper_try tc sf_write client audio_data of
        (lg, Inl e) \<Rightarrow> (lg @ [(ERROR, ''Whisper transcription error'')], Inr None)
      | (lg, Inr r) \<Rightarrow> (lg, Inr r))"

text \<open>
  \<^verbatim>\<open>create_transcription_service\<close>, giving the \<^verbatim>\<open>transcribe\<close> method of the service made.
\<close>

definition create_transcription_service ::
  "string \<Rightarrow> transcription_config \<Rightarrow> sf_write_fn \<Rightarrow> speech_client option \<Rightarrow>
   whisper_client option \<Rightarrow> py_exception + transcribe_fn" where
  "create_transcription_service service_type tc sf_write speech whisper =
     (if service_type = ''google-chirp'' then Inr (chirp_transcribe tc sf_write speech)
      else if service_type = ''openai-whisper'' then Inr (whisper_transcribe tc sf_write whisper)
      else Inl ValueError)"

text \<open>
  What an \<^verbatim>\<open>AudioReceiver\<close> is built around: the debug flag, the \<^verbatim>\<open>transcribe\<close> method of
  its service, the result sink (\<open>Some e\<close> when the call raises \<open>e\<close>) and the outcome of the
  file writes of \<^verbatim>\<open>_save_debug_data\<close>.
\<close>

record collaborators =
  debug_mode :: bool
  transcription_service :: transcribe_fn
  on_transcription :: "string \<Rightarrow> py_exception option"
  save_debug_data :: "audio \<Rightarrow> string \<Rightarrow> py_exception option"

text \<open>
  \<^verbatim>\<open>_transcribe_audio\<close>. A dataclass instance is truthy, so \<^verbatim>\<open>result and result.text\<close> tests
  that the result is not \<^verbatim>\<open>None\<close> and its text not empty. Every exception of the body is
  caught and logged.
\<close>

definition transcribe_audio :: "collaborators \<Rightarrow> audio \<Rightarrow> receiver \<Rightarrow> receiver" where
  "transcribe_audio env audio_data s =
     (let s1 = log_msg DEBUG ''Sending audio to Google Chirp...'' s;
          (lg, outcome) = transcription_service env audio_data;
          s2 = s1\<lparr>logged := logged s1 @ lg\<rparr>
      in (case outcome of
           Inl e \<Rightarrow> log_msg ERROR ''Transcription error'' s2
         | Inr None \<Rightarrow> s2
         | Inr (Some result) \<Rightarrow>
             if result_text result = [] then s2
             else
               (let s3 = log_msg DEBUG ''Transcribed'' s2;
                   s4 = s3\<lparr>sink_calls := sink_calls s3 @ [result_text result]\<rparr>
               in (case on_transcription env (result_text result) of
                    Some e \<Rightarrow> log_msg ERROR ''Transcription error'' s4
                  | None \<Rightarrow>
                      if debug_mode env then
                        (case save_debug_data env audio_data (result_text result) of
                           Some e \<Rightarrow> log_msg ERROR ''Transcription error'' s4
                         | None \<Rightarrow>
                             s4\<lparr>debug_saves :=
                                  debug_saves s4 @ [(audio_data, result_text result)]\<rparr>)
                      else s4))))"

text \<open>
  \<^verbatim>\<open>_process_audio_queue\<close>, one step of the coroutine at a time. At the loop head it tests
  the flag; in \<^verbatim>\<open>await self.audio_queue.get()\<close> it takes the head of the queue, or waits
  (\<open>None\<close>) while the queue is empty; an item taken is never \<^verbatim>\<open>None\<close> and is transcribed.
  Neither \<^verbatim>\<open>get\<close> nor \<^verbatim>\<open>_transcribe_audio\<close> raises, so the \<^verbatim>\<open>except\<close> of the loop is never
  entered.
\<close>

definition process_audio_queue_step :: "collaborators \<Rightarrow> receiver \<Rightarrow> receiver option" where
  "process_audio_queue_step env s =
     (case drain s of
        LoopHead \<Rightarrow>
          Some (if terminate_flag s then s\<lparr>drain := Returned\<rparr> else s\<lparr>drain := AwaitGet\<rparr>)
      | AwaitGet \<Rightarrow>
          (case queue_items s of
             [] \<Rightarrow> None
           | audio_data # rest \<Rightarrow>
               Some ((transcribe_audio env audio_data (s\<lparr>queue_items := rest\<rparr>))
                       \<lparr>drain := LoopHead\<rparr>))
      | Returned \<Rightarrow> None)"

text \<open>
  \<^verbatim>\<open>stop()\<close>: the flag is set, the stream is stopped (no callback comes after it) and the
  service is cleaned up.
\<close>

definition stop :: "receiver \<Rightarrow> receiver" where
  "stop s = log_msg INFO ''Audio receiver stopped'' (s\<lparr>terminate_flag := True\<rparr>)"

text \<open>
  The receiver at work: the stream delivers a block, the loop completes the oldest scheduled
  put, the drain loop makes a step, or \<^verbatim>\<open>stop()\<close> is called. An event that cannot happen in
  a state (an exception in the callback, a put or a get that waits) gives \<open>None\<close>.
\<close>

datatype receiver_event =
    Block audio int bool
  | LoopPut
  | DrainStep
  | Stop

fun receiver_step ::
  "audio_config \<Rightarrow> collaborators \<Rightarrow> receiver_event \<Rightarrow> receiver \<Rightarrow> receiver option" where
  "receiver_step cfg env (Block indata frames status) s =
     (case audio_callback cfg indata frames status s of Inl e \<Rightarrow> None | Inr s' \<Rightarrow> Some s')"
| "receiver_step cfg env LoopPut s = loop_put cfg s"
| "receiver_step cfg env DrainStep s = process_audio_queue_step env s"
| "receiver_step cfg env Stop s = Some (stop s)"

fun receiver_run ::
  "audio_config \<Rightarrow> collaborators \<Rightarrow> receiver_event list \<Rightarrow> receiver \<Rightarrow> receiver option" where
  "receiver_run cfg env [] s = Some s"
| "receiver_run cfg env (ev # evs) s =
     (case receiver_step cfg env ev s of None \<Rightarrow> None | Some s' \<Rightarrow> receiver_run cfg env evs s')"

text \<open>
  The utterances that the callbacks of a run hand to the loop (each callback appends at most
  one to \<open>scheduled\<close>), and the utterances that the drain loop takes from the queue, both in
  the order of the events.
\<close>

fun accepted ::
  "audio_config \<Rightarrow> collaborators \<Rightarrow> receiver_event list \<Rightarrow> receiver \<Rightarrow> audio list" where
  "accepted cfg env [] s = []"
| "accepted cfg env (ev # evs) s =
     (case receiver_step cfg env ev s of
        None \<Rightarrow> []
      | Some s' \<Rightarrow>
          (case ev of
             Block indata frames status \<Rightarrow> drop (length (scheduled s)) (scheduled s')
           | _ \<Rightarrow> []) @ accepted cfg env evs s')"

fun dequeued ::
  "audio_config \<Rightarrow> collaborators \<Rightarrow> receiver_event list \<Rightarrow> receiver \<Rightarrow> audio list" where
  "dequeued cfg env [] s = []"
| "dequeued cfg env (ev # evs) s =
     (case receiver_step cfg env ev s of
        None \<Rightarrow> []
      | Some s' \<Rightarrow>
          (if ev = DrainStep \<and> drain s = AwaitGet then take 1 (queue_items s) else [])
            @ dequeued cfg env evs s')"

text \<open>
  \<^verbatim>\<open>_stop_recording\<close> logs exactly one of three records, whatever becomes of the
  utterance: these records in the log count the utterances that the detector has emitted.
\<close>

definition handoff_record :: "log_record \<Rightarrow> bool" where
  "handoff_record r \<longleftrightarrow>
     r = (DEBUG, ''Queued audio for processing'') \<or>
     r = (WARNING, ''Audio queue full or event loop not set, dropping audio frame'') \<or>
     r = (ERROR, ''Failed to enqueue audio data'')"

text \<open>
  The duration \<^verbatim>\<open>frames / sample_rate\<close> of a block, as \<^verbatim>\<open>_handle_recording\<close> computes it
  for a sample rate other than 0, and the duration of a run of blocks.
\<close>

definition frame_duration :: "audio_config \<Rightarrow> int \<Rightarrow> real" where
  "frame_duration cfg frames = real_of_int frames / real_of_int (sample_rate cfg)"

definition run_duration :: "audio_config \<Rightarrow> callback_args list \<Rightarrow> real" where
  "run_duration cfg cs =
     sum_list (map (\<lambda>c. real_of_int (fst (snd c)) / real_of_int (sample_rate cfg)) cs)"

section \<open>Example inputs\<close>

text \<open>
  The defaults of \<^verbatim>\<open>AudioConfig\<close>. A configuration with blocks of two samples at four samples per second (half a second per
  block, a pre-roll of two blocks), a loud and a silent block, and a receiver whose
  \<^verbatim>\<open>start()\<close> has stored the loop.
\<close>

definition default_config :: audio_config where
  "default_config =
     \<lparr>sample_rate = 44100, audio_threshold = 5 / 1000, silence_threshold = 1,
      min_duration = 1 / 2, max_duration = 30, pre_roll = 1 / 2, queue_size = 100\<rparr>"

definition example_config :: audio_config where
  "example_config =
     \<lparr>sample_rate = 4, audio_threshold = 1 / 2, silence_threshold = 1, min_duration = 1,
      max_duration = 2, pre_roll = 1, queue_size = 2\<rparr>"

definition loud_block :: audio where
  "loud_block = [1, 1]"

definition quiet_block :: audio where
  "quiet_block = [0, 0]"

definition started_receiver :: receiver where
  "started_receiver = init_receiver\<lparr>loop := Some LoopRunning\<rparr>"

text \<open>
  Collaborators for the examples: a service that recognises no speech, a sink that returns,
  no debug files.
\<close>

definition example_collaborators :: collaborators where
  "example_collaborators =
     \<lparr>debug_mode = False, transcription_service = (\<lambda>audio_data. ([], Inr None)),
      on_transcription = (\<lambda>text. None), save_debug_data = (\<lambda>audio_data text. None)\<rparr>"

text \<open>
  A transcription configuration with the defaults of \<^verbatim>\<open>TranscriptionConfig\<close> and
  credentials; an encoder that succeeds; a speech client that fails, one that finds no
  result and a Whisper client that answers with an empty text; collaborators whose service
  recognises a word.
\<close>

definition example_transcription_config :: transcription_config where
  "example_transcription_config =
     \<lparr>tc_sample_rate = 44100, tc_language = ''en-US'', tc_project_id = Some ''demo'',
      tc_api_key = Some ''key''\<rparr>"

definition example_sf_write :: sf_write_fn where
  "example_sf_write = (\<lambda>audio_data rate. Inr ''RIFF'')"

definition failing_speech_client :: speech_client where
  "failing_speech_client = (\<lambda>request. Inl (OtherException ''ServiceUnavailable''))"

definition empty_speech_client :: speech_client where
  "empty_speech_client = (\<lambda>request. Inr [])"

definition silent_whisper_client :: whisper_client where
  "silent_whisper_client = (\<lambda>request. Inr [''text'' \<mapsto> []])"

definition speaking_collaborators :: collaborators where
  "speaking_collaborators =
     example_collaborators
       \<lparr>transcription_service :=
          (\<lambda>audio_data. ([], Inr (Some \<lparr>result_text = ''launch'', confidence = 1,
                                       result_language = ''en-US''\<rparr>)))\<rparr>"

section \<open>Basic facts about the detector\<close>

text \<open>What each method does to each attribute.\<close>

lemma log_msg_simps [simp]:
  "loop (log_msg l m s) = loop s"
  "queue_items (log_msg l m s) = queue_items s"
  "scheduled (log_msg l m s) = scheduled s"
  "terminate_flag (log_msg l m s) = terminate_flag s"
  "drain (log_msg l m s) = drain s"
  "pre_roll_buffer (log_msg l m s) = pre_roll_buffer s"
  "recording (log_msg l m s) = recording s"
  "audio_frames (log_msg l m s) = audio_frames s"
  "silence_counter (log_msg l m s) = silence_counter s"
  "recording_duration (log_msg l m s) = recording_duration s"
  "logged (log_msg l m s) = logged s @ [(l, m)]"
  "sink_calls (log_msg l m s) = sink_calls s"
  "debug_saves (log_msg l m s) = debug_saves s"
  by (simp_all add: log_msg_def)

lemma audio_callback_unfold:
  "frames \<noteq> 0 \<Longrightarrow>
   audio_callback cfg indata frames status s =
     (let s2 = update_pre_roll cfg indata frames status s;
          s3 = (if \<not> recording s2 \<and> rms_gt (rms indata) (audio_threshold cfg)
                then start_recording s2 else s2)
      in if recording s3 then handle_recording cfg indata (rms indata) frames s3 else Inr s3)"
  by (simp add: audio_callback_def update_pre_roll_def Let_def)

lemma update_pre_roll_simps [simp]:
  "loop (update_pre_roll cfg i f st s) = loop s"
  "queue_items (update_pre_roll cfg i f st s) = queue_items s"
  "scheduled (update_pre_roll cfg i f st s) = scheduled s"
  "terminate_flag (update_pre_roll cfg i f st s) = terminate_flag s"
  "drain (update_pre_roll cfg i f st s) = drain s"
  "recording (update_pre_roll cfg i f st s) = recording s"
  "audio_frames (update_pre_roll cfg i f st s) = audio_frames s"
  "silence_counter (update_pre_roll cfg i f st s) = silence_counter s"
  "recording_duration (update_pre_roll cfg i f st s) = recording_duration s"
  "sink_calls (update_pre_roll cfg i f st s) = sink_calls s"
  "debug_saves (update_pre_roll cfg i f st s) = debug_saves s"
  "logged (update_pre_roll cfg i f st s) =
     logged s @ (if st then [(WARNING, ''Audio stream status'')] else [])"
  "pre_roll_buffer (update_pre_roll cfg i f st s) =
     (if int (length (pre_roll_buffer s)) + 1 > pre_roll_frames cfg f
      then tl (pre_roll_buffer s @ [i]) else pre_roll_buffer s @ [i])"
  by (simp_all add: update_pre_roll_def Let_def)

lemma start_recording_simps [simp]:
  "loop (start_recording s) = loop s"
  "queue_items (start_recording s) = queue_items s"
  "scheduled (start_recording s) = scheduled s"
  "terminate_flag (start_recording s) = terminate_flag s"
  "drain (start_recording s) = drain s"
  "pre_roll_buffer (start_recording s) = pre_roll_buffer s"
  "recording (start_recording s) = True"
  "audio_frames (start_recording s) = pre_roll_buffer s"
  "silence_counter (start_recording s) = 0"
  "recording_duration (start_recording s) = 0"
  "logged (start_recording s) = logged s @ [(DEBUG, ''Started recording'')]"
  "sink_calls (start_recording s) = sink_calls s"
  "debug_saves (start_recording s) = debug_saves s"
  by (simp_all add: start_recording_def)

text \<open>
  \<^verbatim>\<open>_stop_recording\<close> returns whenever the utterance buffer is not empty, and
  \<^verbatim>\<open>_handle_recording\<close> whenever the sample rate is not 0; the state they return.
\<close>

lemma stop_recording_Inr:
  assumes "audio_frames s \<noteq> []"
  shows "\<exists>s'. stop_recording cfg s = Inr s' \<and>
     loop s' = loop s \<and> queue_items s' = queue_items s \<and> terminate_flag s' = terminate_flag s \<and>
     drain s' = drain s \<and> pre_roll_buffer s' = pre_roll_buffer s \<and> \<not> recording s' \<and>
     audio_frames s' = [] \<and> silence_counter s' = silence_counter s \<and>
     recording_duration s' = recording_duration s \<and> sink_calls s' = sink_calls s \<and>
     debug_saves s' = debug_saves s \<and>
     scheduled s' =
       (if loop s = Some LoopRunning \<and> \<not> queue_full cfg s
        then scheduled s @ [concat (audio_frames s)] else scheduled s) \<and>
     logged s' = logged s @
       [if loop s = None \<or> queue_full cfg s
        then (WARNING, ''Audio queue full or event loop not set, dropping audio frame'')
        else if loop s = Some LoopClosed then (ERROR, ''Failed to enqueue audio data'')
        else (DEBUG, ''Queued audio for processing'')]"
proof (cases "loop s")
  case None
  with assms show ?thesis by (simp add: stop_recording_def Let_def queue_full_def)
next
  case (Some l)
  with assms show ?thesis
    by (cases l) (simp_all add: stop_recording_def Let_def queue_full_def)
qed

lemma handle_recording_Inr:
  assumes "sample_rate cfg \<noteq> 0"
  shows "\<exists>s'. handle_recording cfg indata r frames s = Inr s' \<and>
     loop s' = loop s \<and> queue_items s' = queue_items s \<and> terminate_flag s' = terminate_flag s \<and>
     drain s' = drain s \<and> pre_roll_buffer s' = pre_roll_buffer s \<and>
     sink_calls s' = sink_calls s \<and> debug_saves s' = debug_saves s \<and>
     recording_duration s' =
       recording_duration s + real_of_int frames / real_of_int (sample_rate cfg) \<and>
     silence_counter s' =
       (if rms_le r (audio_threshold cfg)
        then silence_counter s + real_of_int frames / real_of_int (sample_rate cfg) else 0) \<and>
     recording s' = (recording s \<and> \<not> should_stop_recording cfg s') \<and>
     audio_frames s' = (if should_stop_recording cfg s' then [] else audio_frames s @ [indata]) \<and>
     scheduled s' =
       (if should_stop_recording cfg s' \<and> loop s = Some LoopRunning \<and> \<not> queue_full cfg s
        then scheduled s @ [concat (audio_frames s @ [indata])] else scheduled s) \<and>
     logged s' = logged s @
       (if should_stop_recording cfg s' then
          [if loop s = None \<or> queue_full cfg s
           then (WARNING, ''Audio queue full or event loop not set, dropping audio frame'')
           else if loop s = Some LoopClosed then (ERROR, ''Failed to enqueue audio data'')
           else (DEBUG, ''Queued audio for processing'')]
        else [])"
proof -
  define d where "d = real_of_int frames / real_of_int (sample_rate cfg)"
  define s3 where "s3 =
    s\<lparr>audio_frames := audio_frames s @ [indata],
      recording_duration := recording_duration s + d,
      silence_counter := (if rms_le r (audio_threshold cfg) then silence_counter s + d else 0)\<rparr>"
  have hr: "handle_recording cfg indata r frames s =
      (if should_stop_recording cfg s3 then stop_recording cfg s3 else Inr s3)"
    using assms by (simp add: handle_recording_def Let_def s3_def d_def)
  have s3: "loop s3 = loop s" "queue_items s3 = queue_items s"
      "terminate_flag s3 = terminate_flag s" "drain s3 = drain s"
      "pre_roll_buffer s3 = pre_roll_buffer s" "recording s3 = recording s"
      "audio_frames s3 = audio_frames s @ [indata]" "scheduled s3 = scheduled s"
      "logged s3 = logged s" "sink_calls s3 = sink_calls s" "debug_saves s3 = debug_saves s"
      "recording_duration s3 = recording_duration s + d"
      "silence_counter s3 =
         (if rms_le r (audio_threshold cfg) then silence_counter s + d else 0)"
      "queue_full cfg s3 = queue_full cfg s"
    by (simp_all add: s3_def queue_full_def)
  show ?thesis
  proof (cases "should_stop_recording cfg s3")
    case False
    have "handle_recording cfg indata r frames s = Inr s3" using hr False by simp
    then show ?thesis using False s3 unfolding d_def [symmetric]
      by (intro exI [of _ s3]) simp
  next
    case True
    have ne: "audio_frames s3 \<noteq> []" by (simp add: s3)
    from stop_recording_Inr [OF ne, of cfg] obtain s' where st: "stop_recording cfg s3 = Inr s'"
      and f: "loop s' = loop s3" "queue_items s' = queue_items s3"
        "terminate_flag s' = terminate_flag s3" "drain s' = drain s3"
        "pre_roll_buffer s' = pre_roll_buffer s3" "\<not> recording s'" "audio_frames s' = []"
        "silence_counter s' = silence_counter s3" "recording_duration s' = recording_duration s3"
        "sink_calls s' = sink_calls s3" "debug_saves s' = debug_saves s3"
        "scheduled s' =
           (if loop s3 = Some LoopRunning \<and> \<not> queue_full cfg s3
            then scheduled s3 @ [concat (audio_frames s3)] else scheduled s3)"
        "logged s' = logged s3 @
           [if loop s3 = None \<or> queue_full cfg s3
            then (WARNING, ''Audio queue full or event loop not set, dropping audio frame'')
            else if loop s3 = Some LoopClosed then (ERROR, ''Failed to enqueue audio data'')
            else (DEBUG, ''Queued audio for processing'')]"
      by blast
    have stop': "should_stop_recording cfg s'"
      using True f(8,9) by (simp add: should_stop_recording_def)
    have "handle_recording cfg indata r frames s = Inr s'" using hr True st by simp
    then show ?thesis using stop' f s3 unfolding d_def [symmetric]
      by (intro exI [of _ s']) simp
  qed
qed

text \<open>The three ways through the callback.\<close>

lemma callback_idle_quiet:
  assumes "\<not> recording s" "\<not> rms_gt (rms indata) (audio_threshold cfg)" "frames \<noteq> 0"
  shows "audio_callback cfg indata frames status s =
           Inr (update_pre_roll cfg indata frames status s)"
  using assms by (simp add: audio_callback_unfold)

lemma callback_recording:
  assumes "recording s" "frames \<noteq> 0"
  shows "audio_callback cfg indata frames status s =
           handle_recording cfg indata (rms indata) frames
             (update_pre_roll cfg indata frames status s)"
  using assms by (simp add: audio_callback_unfold)

lemma callback_trigger:
  assumes "\<not> recording s" "rms_gt (rms indata) (audio_threshold cfg)" "frames \<noteq> 0"
  shows "audio_callback cfg indata frames status s =
           handle_recording cfg indata (rms indata) frames
             (start_recording (update_pre_roll cfg indata frames status s))"
  using assms by (simp add: audio_callback_unfold)

text \<open>The example inputs evaluated.\<close>

lemma example_config_simps [simp]:
  "sample_rate example_config = 4" "audio_threshold example_config = 1 / 2"
  "silence_threshold example_config = 1" "min_duration example_config = 1"
  "max_duration example_config = 2" "pre_roll example_config = 1"
  "queue_size example_config = 2"
  by (simp_all add: example_config_def)

lemma rms_loud_block [simp]: "rms loud_block = Some 1"
  by (simp add: rms_def loud_block_def)

lemma rms_quiet_block [simp]: "rms quiet_block = Some 0"
  by (simp add: rms_def quiet_block_def)

lemma pre_roll_frames_example [simp]: "pre_roll_frames example_config 2 = 2"
  by (simp add: pre_roll_frames_def py_int_def)

text \<open>Which log records report a hand-over.\<close>

lemma handoff_record_simps [simp]:
  "\<not> handoff_record (WARNING, ''Audio stream status'')"
  "\<not> handoff_record (DEBUG, ''Started recording'')"
  "handoff_record (DEBUG, ''Queued audio for processing'')"
  "handoff_record (WARNING, ''Audio queue full or event loop not set, dropping audio frame'')"
  "handoff_record (ERROR, ''Failed to enqueue audio data'')"
  by (simp_all add: handoff_record_def)

section \<open>Segment completion\<close>

text \<open>
  Claim C1. A block processed while the detector is recording (with a block length and a
  sample rate other than 0, so that the callback returns) adds its duration to the
  accumulated duration, and to the silence duration when its RMS is at most the threshold
  (which is reset otherwise). The detector is idle afterwards exactly when the accumulated
  duration is at least \<open>min_duration\<close> and the silence duration is at least
  \<open>silence_threshold\<close> or the accumulated duration at least \<open>max_duration\<close>. On that
  transition the utterance buffer, with the block appended, is concatenated into one sample
  sequence and handed over, the outcome being logged in one record: a put of it is
  scheduled on the loop when the loop is running and the queue is not full (the queue's
  policy drops it otherwise), and the utterance buffer is empty again. Without the
  transition the block is appended to the utterance buffer and nothing is handed over.
\<close>

theorem recording_to_idle_iff:
  assumes "recording s" "frames \<noteq> 0" "sample_rate cfg \<noteq> 0"
  shows "\<exists>s'. audio_callback cfg indata frames status s = Inr s' \<and>
     recording_duration s' =
       recording_duration s + real_of_int frames / real_of_int (sample_rate cfg) \<and>
     silence_counter s' =
       (if rms_le (rms indata) (audio_threshold cfg)
        then silence_counter s + real_of_int frames / real_of_int (sample_rate cfg) else 0) \<and>
     (\<not> recording s' \<longleftrightarrow>
        min_duration cfg \<le> recording_duration s' \<and>
        (silence_threshold cfg \<le> silence_counter s' \<or>
         max_duration cfg \<le> recording_duration s')) \<and>
     audio_frames s' = (if recording s' then audio_frames s @ [indata] else []) \<and>
     scheduled s' =
       (if \<not> recording s' \<and> loop s = Some LoopRunning \<and> \<not> queue_full cfg s
        then scheduled s @ [concat (audio_frames s @ [indata])] else scheduled s) \<and>
     queue_items s' = queue_items s \<and>
     filter handoff_record (logged s') =
       filter handoff_record (logged s) @
         (if recording s' then []
          else [if loop s = None \<or> queue_full cfg s
                then (WARNING, ''Audio queue full or event loop not set, dropping audio frame'')
                else if loop s = Some LoopClosed then (ERROR, ''Failed to enqueue audio data'')
                else (DEBUG, ''Queued audio for processing'')])"
proof -
  let ?u = "update_pre_roll cfg indata frames status s"
  from handle_recording_Inr [OF assms(3), of indata "rms indata" frames ?u]
  obtain s' where h: "handle_recording cfg indata (rms indata) frames ?u = Inr s'"
    and f: "recording_duration s' =
       recording_duration ?u + real_of_int frames / real_of_int (sample_rate cfg)"
     "silence_counter s' =
       (if rms_le (rms indata) (audio_threshold cfg)
        then silence_counter ?u + real_of_int frames / real_of_int (sample_rate cfg) else 0)"
     "recording s' = (recording ?u \<and> \<not> should_stop_recording cfg s')"
     "audio_frames s' = (if should_stop_recording cfg s' then [] else audio_frames ?u @ [indata])"
     "scheduled s' =
       (if should_stop_recording cfg s' \<and> loop ?u = Some LoopRunning \<and> \<not> queue_full cfg ?u
        then scheduled ?u @ [concat (audio_frames ?u @ [indata])] else scheduled ?u)"
     "queue_items s' = queue_items ?u"
     "logged s' = logged ?u @
       (if should_stop_recording cfg s' then
          [if loop ?u = None \<or> queue_full cfg ?u
           then (WARNING, ''Audio queue full or event loop not set, dropping audio frame'')
           else if loop ?u = Some LoopClosed then (ERROR, ''Failed to enqueue audio data'')
           else (DEBUG, ''Queued audio for processing'')]
        else [])"
    by blast
  have qf: "queue_full cfg ?u = queue_full cfg s" by (simp add: queue_full_def)
  have cb: "audio_callback cfg indata frames status s = Inr s'"
    using callback_recording [OF assms(1,2)] h by simp
  have stop_eq: "should_stop_recording cfg s' = (\<not> recording s')"
    using f(3) assms(1) by simp
  have stop_iff: "\<not> recording s' \<longleftrightarrow>
        min_duration cfg \<le> recording_duration s' \<and>
        (silence_threshold cfg \<le> silence_counter s' \<or>
         max_duration cfg \<le> recording_duration s')"
    unfolding stop_eq [symmetric] by (auto simp: should_stop_recording_def)
  have 1: "recording_duration s' =
       recording_duration s + real_of_int frames / real_of_int (sample_rate cfg)"
    using f(1) by simp
  have 2: "silence_counter s' =
       (if rms_le (rms indata) (audio_threshold cfg)
        then silence_counter s + real_of_int frames / real_of_int (sample_rate cfg) else 0)"
    using f(2) by simp
  have 3: "audio_frames s' = (if recording s' then audio_frames s @ [indata] else [])"
    using f(4) stop_eq by simp
  have 4: "scheduled s' =
       (if \<not> recording s' \<and> loop s = Some LoopRunning \<and> \<not> queue_full cfg s
        then scheduled s @ [concat (audio_frames s @ [indata])] else scheduled s)"
    using f(5) stop_eq qf by simp
  have 5: "queue_items s' = queue_items s" using f(6) by simp
  have 6: "filter handoff_record (logged s') =
       filter handoff_record (logged s) @
         (if recording s' then []
          else [if loop s = None \<or> queue_full cfg s
                then (WARNING, ''Audio queue full or event loop not set, dropping audio frame'')
                else if loop s = Some LoopClosed then (ERROR, ''Failed to enqueue audio data'')
                else (DEBUG, ''Queued audio for processing'')])"
    using f(7) stop_eq qf by simp
  from cb 1 2 stop_iff 3 4 5 6 show ?thesis by blast
qed

theorem recording_to_idle_iff_witness:
  "map_sum id scheduled
     (audio_callback example_config loud_block 2 False
        (started_receiver\<lparr>recording := True, audio_frames := [quiet_block],
           recording_duration := 3 / 2\<rparr>)) = Inr [[0, 0, 1, 1]]"
  using recording_to_idle_iff [of "started_receiver\<lparr>recording := True,
      audio_frames := [quiet_block], recording_duration := 3 / 2\<rparr>" 2 example_config
      loud_block False]
  by (auto simp: started_receiver_def init_receiver_def queue_full_def
      rms_le_def loud_block_def quiet_block_def)

section \<open>Silence\<close>

lemma quiet_run_idle:
  assumes "\<not> recording s" "int (length (pre_roll_buffer s)) \<le> pre_roll_frames cfg n" "n \<noteq> 0"
    "\<forall>c \<in> set cs. fst (snd c) = n \<and> \<not> rms_gt (rms (fst c)) (audio_threshold cfg)"
  shows "\<exists>s'. run_callbacks cfg cs s = Inr s' \<and> \<not> recording s' \<and>
     int (length (pre_roll_buffer s')) \<le> pre_roll_frames cfg n"
  using assms
proof (induction cs arbitrary: s)
  case Nil
  then show ?case by simp
next
  case (Cons c cs)
  obtain indata frames status where c: "c = (indata, frames, status)" by (cases c)
  from Cons.prems(4) c have fr: "frames = n"
    and q: "\<not> rms_gt (rms indata) (audio_threshold cfg)" by simp_all
  let ?u = "update_pre_roll cfg indata n status s"
  have cb: "audio_callback cfg indata frames status s = Inr ?u"
    using callback_idle_quiet [OF Cons.prems(1) q] Cons.prems(3) fr by simp
  have "\<not> recording ?u" using Cons.prems(1) by simp
  moreover have "int (length (pre_roll_buffer ?u)) \<le> pre_roll_frames cfg n"
    using Cons.prems(2) by simp
  moreover have "\<forall>c \<in> set cs. fst (snd c) = n \<and> \<not> rms_gt (rms (fst c)) (audio_threshold cfg)"
    using Cons.prems(4) by simp
  ultimately have "\<exists>s'. run_callbacks cfg cs ?u = Inr s' \<and> \<not> recording s' \<and>
     int (length (pre_roll_buffer s')) \<le> pre_roll_frames cfg n"
    using Cons.prems(3) by (intro Cons.IH)
  then show ?case using cb c by simp
qed

text \<open>
  Claim C4. Let every block have the same length \<open>n\<close> (other than 0) and an RMS that is not
  above the threshold (below it, in particular), and let the detector start idle with a
  pre-roll buffer within the capacity \<open>pre_roll_frames cfg n\<close>, as after \<^verbatim>\<open>__init__\<close> with a
  capacity that is not negative. Then after every block the callback has returned, the
  detector is idle, and the pre-roll buffer is within the capacity.
\<close>

theorem quiet_frames_stay_idle:
  assumes "\<not> recording s" "int (length (pre_roll_buffer s)) \<le> pre_roll_frames cfg n" "n \<noteq> 0"
    "\<forall>c \<in> set cs. fst (snd c) = n \<and> \<not> rms_gt (rms (fst c)) (audio_threshold cfg)"
  shows "\<forall>k \<le> length cs. \<exists>s'. run_callbacks cfg (take k cs) s = Inr s' \<and> \<not> recording s' \<and>
     int (length (pre_roll_buffer s')) \<le> pre_roll_frames cfg n"
proof (intro allI impI)
  fix k assume "k \<le> length cs"
  have "\<forall>c \<in> set (take k cs). fst (snd c) = n \<and> \<not> rms_gt (rms (fst c)) (audio_threshold cfg)"
    using assms(4) by (meson in_set_takeD)
  with assms(1-3) show "\<exists>s'. run_callbacks cfg (take k cs) s = Inr s' \<and> \<not> recording s' \<and>
     int (length (pre_roll_buffer s')) \<le> pre_roll_frames cfg n"
    by (rule quiet_run_idle)
qed

theorem quiet_frames_stay_idle_witness:
  "map_sum id recording
     (run_callbacks example_config
        [(quiet_block, 2, False), (quiet_block, 2, True), (quiet_block, 2, False)]
        init_receiver) = Inr False \<and>
   map_sum id pre_roll_buffer
     (run_callbacks example_config
        [(quiet_block, 2, False), (quiet_block, 2, True), (quiet_block, 2, False)]
        init_receiver) = Inr [quiet_block, quiet_block]"
  using quiet_frames_stay_idle [of init_receiver example_config 2
      "[(quiet_block, 2, False), (quiet_block, 2, True), (quiet_block, 2, False)]",
      THEN spec, of 3]
  by (auto simp: init_receiver_def rms_gt_def callback_idle_quiet)

section \<open>The pre-roll buffer\<close>

text \<open>
  The callback returns for a block length and a sample rate other than 0, and its pre-roll
  buffer is that of the update at its start.
\<close>

lemma audio_callback_total:
  assumes "frames \<noteq> 0" "sample_rate cfg \<noteq> 0"
  shows "\<exists>s'. audio_callback cfg indata frames status s = Inr s' \<and>
     pre_roll_buffer s' = pre_roll_buffer (update_pre_roll cfg indata frames status s)"
proof (cases "recording s \<or> rms_gt (rms indata) (audio_threshold cfg)")
  case False
  then show ?thesis using callback_idle_quiet [of s indata cfg frames status] assms(1) by simp
next
  case True
  let ?u = "update_pre_roll cfg indata frames status s"
  let ?t = "if recording s then ?u else start_recording ?u"
  have cb: "audio_callback cfg indata frames status s =
      handle_recording cfg indata (rms indata) frames ?t"
  proof (cases "recording s")
    case True
    then show ?thesis using callback_recording [of s frames cfg indata status] assms(1) by simp
  next
    case False
    with True have "rms_gt (rms indata) (audio_threshold cfg)" by simp
    with False show ?thesis
      using callback_trigger [of s indata cfg frames status] assms(1) by simp
  qed
  from handle_recording_Inr [OF assms(2), of indata "rms indata" frames ?t]
  obtain s' where "handle_recording cfg indata (rms indata) frames ?t = Inr s'"
    and "pre_roll_buffer s' = pre_roll_buffer ?t" by blast
  then show ?thesis unfolding cb by (intro exI [of _ s']) simp
qed

lemma update_pre_roll_window:
  assumes "int (length (pre_roll_buffer s)) \<le> N" "pre_roll_frames cfg n = N"
  shows "pre_roll_buffer (update_pre_roll cfg x n st s) =
     drop (length (pre_roll_buffer s @ [x]) - nat N) (pre_roll_buffer s @ [x])"
proof (cases "int (length (pre_roll_buffer s)) + 1 > N")
  case True
  with assms(1) have len: "length (pre_roll_buffer s) = nat N" by linarith
  have "length (pre_roll_buffer s @ [x]) - nat N = 1" using len by simp
  moreover have "tl (pre_roll_buffer s @ [x]) = drop 1 (pre_roll_buffer s @ [x])"
    by (metis One_nat_def drop0 drop_Suc)
  ultimately show ?thesis using True assms(2) by simp
next
  case False
  then have "length (pre_roll_buffer s) + 1 \<le> nat N" by linarith
  then show ?thesis using False assms(2) by simp
qed

lemma drop_window_step:
  "drop (length (drop (length ys - N) ys @ fs) - N) (drop (length ys - N) ys @ fs) =
   drop (length (ys @ fs) - N) (ys @ fs)"
proof -
  define k where "k = length ys - N"
  have 1: "drop k ys @ fs = drop k (ys @ fs)" by (simp add: k_def)
  have 2: "length (drop k (ys @ fs)) - N + k = length (ys @ fs) - N"
    by (simp add: k_def)
  have "drop (length (drop k (ys @ fs)) - N) (drop k (ys @ fs)) =
      drop (length (drop k (ys @ fs)) - N + k) (ys @ fs)"
    by (simp only: drop_drop)
  then show ?thesis unfolding k_def [symmetric] 1 2 .
qed

lemma run_callbacks_window:
  assumes "n \<noteq> 0" "sample_rate cfg \<noteq> 0" "pre_roll_frames cfg n = N"
    "int (length (pre_roll_buffer s)) \<le> N" "\<forall>c \<in> set cs. fst (snd c) = n"
  shows "\<exists>s'. run_callbacks cfg cs s = Inr s' \<and>
     pre_roll_buffer s' =
       drop (length (pre_roll_buffer s @ map fst cs) - nat N) (pre_roll_buffer s @ map fst cs)"
  using assms(4,5)
proof (induction cs arbitrary: s)
  case Nil
  then have "length (pre_roll_buffer s) \<le> nat N" by linarith
  then show ?case by simp
next
  case (Cons c cs)
  obtain indata frames status where c: "c = (indata, frames, status)" by (cases c)
  from Cons.prems(2) c have fr: "frames = n" by simp
  let ?B = "pre_roll_buffer s"
  let ?u = "update_pre_roll cfg indata n status s"
  from audio_callback_total [OF assms(1,2), of indata status s]
  obtain s1 where cb: "audio_callback cfg indata n status s = Inr s1"
    and p1: "pre_roll_buffer s1 = pre_roll_buffer ?u" by blast
  have w: "pre_roll_buffer s1 = drop (length (?B @ [indata]) - nat N) (?B @ [indata])"
    using p1 update_pre_roll_window [OF Cons.prems(1) assms(3)] by simp
  have "length (pre_roll_buffer s1) \<le> nat N"
    unfolding w using Cons.prems(1) by simp
  then have len1: "int (length (pre_roll_buffer s1)) \<le> N" using Cons.prems(1) by linarith
  have rest: "\<forall>c \<in> set cs. fst (snd c) = n" using Cons.prems(2) by simp
  from Cons.IH [OF len1 rest] obtain s' where run: "run_callbacks cfg cs s1 = Inr s'"
    and p': "pre_roll_buffer s' =
       drop (length (pre_roll_buffer s1 @ map fst cs) - nat N) (pre_roll_buffer s1 @ map fst cs)"
    by blast
  have "pre_roll_buffer s' =
      drop (length ((?B @ [indata]) @ map fst cs) - nat N) ((?B @ [indata]) @ map fst cs)"
    unfolding p' w by (rule drop_window_step)
  with run cb c fr show ?case by simp
qed

text \<open>
  Claim C5, as amended. The capacity of the pre-roll buffer is
  \<open>pre_roll \<times> sample_rate / frame_len\<close> truncated to an integer (rounded down, not up, when
  it is not negative). For blocks of one length \<open>n\<close>, a sample rate other than 0 and a
  buffer that starts within the capacity (empty, after \<^verbatim>\<open>__init__\<close>), the callbacks return,
  and afterwards the buffer is within the capacity and holds the most recent blocks, as
  many as the capacity allows, in the order of their arrival: what is left of the old
  content followed by the blocks seen, less the oldest ones beyond the capacity.
\<close>

theorem pre_roll_keeps_most_recent:
  assumes "n \<noteq> 0" "sample_rate cfg \<noteq> 0"
    "0 \<le> pre_roll cfg * real_of_int (sample_rate cfg) / real_of_int n"
    "int (length (pre_roll_buffer s)) \<le> pre_roll_frames cfg n"
    "\<forall>c \<in> set cs. fst (snd c) = n"
  shows "pre_roll_frames cfg n =
       \<lfloor>pre_roll cfg * real_of_int (sample_rate cfg) / real_of_int n\<rfloor> \<and>
     (\<exists>s'. run_callbacks cfg cs s = Inr s' \<and>
        int (length (pre_roll_buffer s')) \<le> pre_roll_frames cfg n \<and>
        pre_roll_buffer s' =
          drop (length (pre_roll_buffer s @ map fst cs) - nat (pre_roll_frames cfg n))
            (pre_roll_buffer s @ map fst cs))"
proof -
  have N: "pre_roll_frames cfg n =
       \<lfloor>pre_roll cfg * real_of_int (sample_rate cfg) / real_of_int n\<rfloor>"
    using assms(3) by (simp add: pre_roll_frames_def py_int_def)
  from run_callbacks_window [OF assms(1,2) refl assms(4,5)]
  obtain s' where run: "run_callbacks cfg cs s = Inr s'"
    and w: "pre_roll_buffer s' =
          drop (length (pre_roll_buffer s @ map fst cs) - nat (pre_roll_frames cfg n))
            (pre_roll_buffer s @ map fst cs)"
    by blast
  have "0 \<le> pre_roll_frames cfg n" using assms(4) by linarith
  then have "int (length (pre_roll_buffer s')) \<le> pre_roll_frames cfg n"
    unfolding w by simp
  with N run w show ?thesis by blast
qed

theorem pre_roll_keeps_most_recent_witness:
  "map_sum id pre_roll_buffer
     (run_callbacks example_config
        [(quiet_block, 2, False), (loud_block, 2, False), (quiet_block, 2, False)]
        init_receiver) = Inr [loud_block, quiet_block]"
  using pre_roll_keeps_most_recent [of 2 example_config init_receiver
      "[(quiet_block, 2, False), (loud_block, 2, False), (quiet_block, 2, False)]"]
  by (auto simp: init_receiver_def)

text \<open>
  Against the claim as it was stated: with a pre-roll of three quarters of a second, four
  samples per second and blocks of two samples the quotient is 1.5 and the stated capacity
  \<open>ceil(1.5) = 2\<close>, yet after two blocks (both under a threshold of 2) the buffer holds
  only the second. For the defaults of \<^verbatim>\<open>AudioConfig\<close> and blocks of 1024 samples the
  buffer has room for 21 blocks, and 22 are stated.
\<close>

theorem pre_roll_capacity_counterexample:
  "spec_pre_roll_capacity (example_config\<lparr>pre_roll := 3 / 4, audio_threshold := 2\<rparr>) 2 = 2 \<and>
   map_sum id pre_roll_buffer
     (run_callbacks (example_config\<lparr>pre_roll := 3 / 4, audio_threshold := 2\<rparr>)
        [(quiet_block, 2, False), (loud_block, 2, False)] init_receiver) = Inr [loud_block] \<and>
   pre_roll_frames default_config 1024 = 21 \<and>
   spec_pre_roll_capacity default_config 1024 = 22"
proof -
  let ?cfg = "example_config\<lparr>pre_roll := 3 / 4, audio_threshold := 2\<rparr>"
  have 1: "spec_pre_roll_capacity ?cfg 2 = 2"
    by (simp add: spec_pre_roll_capacity_def)
  have N: "pre_roll_frames ?cfg 2 = 1"
    by (simp add: pre_roll_frames_def py_int_def)
  have 2: "map_sum id pre_roll_buffer
     (run_callbacks ?cfg [(quiet_block, 2, False), (loud_block, 2, False)] init_receiver) =
       Inr [loud_block]"
    by (simp add: callback_idle_quiet rms_gt_def N init_receiver_def)
  have 3: "pre_roll_frames default_config 1024 = 21"
    by (simp add: pre_roll_frames_def py_int_def default_config_def)
  have 4: "spec_pre_roll_capacity default_config 1024 = 22"
    by (simp add: spec_pre_roll_capacity_def default_config_def)
  from 1 2 3 4 show ?thesis by blast
qed

section \<open>The block that starts a recording\<close>

text \<open>
  Claim C10, as amended. Let a block with an RMS above the threshold arrive while the
  detector is idle, and let the capacity \<open>pre_roll_frames cfg frames\<close> of the pre-roll
  buffer be at least 1 (block length and sample rate other than 0). Then the block is the
  last entry of the pre-roll buffer when the state is tested, the utterance buffer starts
  as a copy of that buffer, and the block is appended once more: the utterance buffer ends
  with the block twice. If the same callback already completes the segment, the utterance
  handed over ends with the block twice in the same way.
\<close>

theorem trigger_block_twice:
  assumes "\<not> recording s" "rms_gt (rms indata) (audio_threshold cfg)"
    "frames \<noteq> 0" "sample_rate cfg \<noteq> 0" "1 \<le> pre_roll_frames cfg frames"
  shows "\<exists>s' pre. audio_callback cfg indata frames status s = Inr s' \<and>
     pre_roll_buffer s' = pre @ [indata] \<and>
     audio_frames s' = (if recording s' then pre @ [indata, indata] else []) \<and>
     scheduled s' =
       (if \<not> recording s' \<and> loop s = Some LoopRunning \<and> \<not> queue_full cfg s
        then scheduled s @ [concat (pre @ [indata, indata])] else scheduled s)"
proof -
  let ?u = "update_pre_roll cfg indata frames status s"
  let ?t = "start_recording ?u"
  define pre where "pre = butlast (pre_roll_buffer ?u)"
  have "pre_roll_buffer ?u \<noteq> [] \<and> last (pre_roll_buffer ?u) = indata"
  proof (cases "pre_roll_buffer s")
    case Nil
    then show ?thesis using assms(5) by simp
  next
    case (Cons b bs)
    then show ?thesis by simp
  qed
  then have u: "pre_roll_buffer ?u = pre @ [indata]"
    unfolding pre_def by (metis append_butlast_last_id)
  from handle_recording_Inr [OF assms(4), of indata "rms indata" frames ?t]
  obtain s' where h: "handle_recording cfg indata (rms indata) frames ?t = Inr s'"
    and f: "pre_roll_buffer s' = pre_roll_buffer ?t"
      "recording s' = (recording ?t \<and> \<not> should_stop_recording cfg s')"
      "audio_frames s' = (if should_stop_recording cfg s' then [] else audio_frames ?t @ [indata])"
      "scheduled s' =
        (if should_stop_recording cfg s' \<and> loop ?t = Some LoopRunning \<and> \<not> queue_full cfg ?t
         then scheduled ?t @ [concat (audio_frames ?t @ [indata])] else scheduled ?t)"
    by blast
  have cb: "audio_callback cfg indata frames status s = Inr s'"
    using callback_trigger [OF assms(1-3)] h by simp
  have stop_eq: "should_stop_recording cfg s' = (\<not> recording s')" using f(2) by simp
  have qf: "queue_full cfg ?t = queue_full cfg s" by (simp add: queue_full_def)
  have 1: "pre_roll_buffer s' = pre @ [indata]" using f(1) u by simp
  have 2: "audio_frames s' = (if recording s' then pre @ [indata, indata] else [])"
    using f(3) stop_eq u by simp
  have 3: "scheduled s' =
       (if \<not> recording s' \<and> loop s = Some LoopRunning \<and> \<not> queue_full cfg s
        then scheduled s @ [concat (pre @ [indata, indata])] else scheduled s)"
    using f(4) stop_eq qf u by simp
  from cb 1 2 3 show ?thesis by blast
qed

theorem trigger_block_twice_witness:
  "\<exists>s' pre.
     audio_callback example_config loud_block 2 False
       (started_receiver\<lparr>pre_roll_buffer := [quiet_block, quiet_block]\<rparr>) = Inr s' \<and>
     pre_roll_buffer s' = pre @ [loud_block] \<and>
     audio_frames s' = (if recording s' then pre @ [loud_block, loud_block] else [])"
proof -
  have "\<not> recording (started_receiver\<lparr>pre_roll_buffer := [quiet_block, quiet_block]\<rparr>)"
    by (simp add: started_receiver_def init_receiver_def)
  moreover have "rms_gt (rms loud_block) (audio_threshold example_config)"
    by (simp add: rms_gt_def)
  moreover have "(2::int) \<noteq> 0" "sample_rate example_config \<noteq> 0"
    "1 \<le> pre_roll_frames example_config 2"
    by simp_all
  ultimately show ?thesis
    using trigger_block_twice [of "started_receiver\<lparr>pre_roll_buffer :=
      [quiet_block, quiet_block]\<rparr>" loud_block example_config 2 False]
    by blast
qed

text \<open>
  Against the claim as it was stated: with a pre-roll of 0 seconds the capacity is 0, the
  block is removed from the pre-roll buffer before the state is tested, and the utterance
  buffer holds it once.
\<close>

theorem trigger_block_once_counterexample:
  "map_sum id audio_frames
     (audio_callback (example_config\<lparr>pre_roll := 0\<rparr>) loud_block 2 False started_receiver) =
     Inr [loud_block]"
proof -
  let ?cfg = "example_config\<lparr>pre_roll := 0\<rparr>"
  have N: "pre_roll_frames ?cfg 2 = 0"
    by (simp add: pre_roll_frames_def py_int_def)
  have idle: "\<not> recording started_receiver"
    by (simp add: started_receiver_def init_receiver_def)
  have loud: "rms_gt (rms loud_block) (audio_threshold ?cfg)"
    by (simp add: rms_gt_def)
  let ?t = "start_recording (update_pre_roll ?cfg loud_block 2 False started_receiver)"
  have t: "audio_frames ?t = []" "recording ?t" "recording_duration ?t = 0"
    "silence_counter ?t = 0"
    by (simp_all add: N started_receiver_def init_receiver_def)
  have sr: "sample_rate ?cfg \<noteq> 0" by simp
  from handle_recording_Inr [OF sr, of loud_block "rms loud_block" 2 ?t]
  obtain s' where h: "handle_recording ?cfg loud_block (rms loud_block) 2 ?t = Inr s'"
    and f: "recording_duration s' =
        recording_duration ?t + real_of_int 2 / real_of_int (sample_rate ?cfg)"
      "silence_counter s' =
       (if rms_le (rms loud_block) (audio_threshold ?cfg)
        then silence_counter ?t + real_of_int 2 / real_of_int (sample_rate ?cfg) else 0)"
      "audio_frames s' =
        (if should_stop_recording ?cfg s' then [] else audio_frames ?t @ [loud_block])"
    by blast
  have "\<not> should_stop_recording ?cfg s'"
    using f(1,2) t by (simp add: should_stop_recording_def rms_le_def)
  then have "audio_frames s' = [loud_block]" using f(3) t(1) by simp
  then show ?thesis
    using callback_trigger [OF idle loud, of 2 False] h by simp
qed

section \<open>The floor on the duration of an utterance\<close>

lemma audio_callback_cases:
  "frames \<noteq> 0 \<Longrightarrow>
   audio_callback cfg indata frames status s =
     (if recording s then
        handle_recording cfg indata (rms indata) frames
          (update_pre_roll cfg indata frames status s)
      else if rms_gt (rms indata) (audio_threshold cfg) then
        handle_recording cfg indata (rms indata) frames
          (start_recording (update_pre_roll cfg indata frames status s))
      else Inr (update_pre_roll cfg indata frames status s))"
  by (simp add: audio_callback_unfold)

text \<open>The equations that evaluate one callback on a given state.\<close>

lemmas callback_eval =
  audio_callback_cases handle_recording_def stop_recording_def
  should_stop_recording_def queue_full_def rms_le_def rms_gt_def started_receiver_def
  init_receiver_def start_recording_def update_pre_roll_def log_msg_def Let_def

text \<open>
  A block that leaves the accumulated duration below \<open>min_duration\<close> does not end the
  recording, whatever the silence.
\<close>

lemma callback_below_min_duration:
  assumes "frames \<noteq> 0" "sample_rate cfg \<noteq> 0"
    "(if recording s then recording_duration s else 0) +
       real_of_int frames / real_of_int (sample_rate cfg) < min_duration cfg"
  shows "\<exists>s'. audio_callback cfg indata frames status s = Inr s' \<and>
     recording s' = (recording s \<or> rms_gt (rms indata) (audio_threshold cfg)) \<and>
     (recording s' \<longrightarrow> recording_duration s' =
        (if recording s then recording_duration s else 0) +
          real_of_int frames / real_of_int (sample_rate cfg)) \<and>
     scheduled s' = scheduled s \<and> queue_items s' = queue_items s \<and>
     filter handoff_record (logged s') = filter handoff_record (logged s)"
proof (cases "recording s \<or> rms_gt (rms indata) (audio_threshold cfg)")
  case False
  then show ?thesis using assms(1) by (simp add: audio_callback_cases)
next
  case True
  let ?u = "update_pre_roll cfg indata frames status s"
  let ?t = "if recording s then ?u else start_recording ?u"
  have cb: "audio_callback cfg indata frames status s =
      handle_recording cfg indata (rms indata) frames ?t"
    using True assms(1) by (auto simp: audio_callback_cases)
  from handle_recording_Inr [OF assms(2), of indata "rms indata" frames ?t]
  obtain s' where h: "handle_recording cfg indata (rms indata) frames ?t = Inr s'"
    and f: "recording_duration s' =
       recording_duration ?t + real_of_int frames / real_of_int (sample_rate cfg)"
     "recording s' = (recording ?t \<and> \<not> should_stop_recording cfg s')"
     "scheduled s' =
       (if should_stop_recording cfg s' \<and> loop ?t = Some LoopRunning \<and> \<not> queue_full cfg ?t
        then scheduled ?t @ [concat (audio_frames ?t @ [indata])] else scheduled ?t)"
     "queue_items s' = queue_items ?t"
     "logged s' = logged ?t @
       (if should_stop_recording cfg s' then
          [if loop ?t = None \<or> queue_full cfg ?t
           then (WARNING, ''Audio queue full or event loop not set, dropping audio frame'')
           else if loop ?t = Some LoopClosed then (ERROR, ''Failed to enqueue audio data'')
           else (DEBUG, ''Queued audio for processing'')]
        else [])"
    by blast
  have dur: "recording_duration s' =
      (if recording s then recording_duration s else 0) +
        real_of_int frames / real_of_int (sample_rate cfg)"
    using f(1) by simp
  have ns: "\<not> should_stop_recording cfg s'"
    using dur assms(3) by (simp add: should_stop_recording_def)
  have 1: "recording s'" using f(2) ns by simp
  have 2: "scheduled s' = scheduled s" using f(3) ns by simp
  have 3: "queue_items s' = queue_items s" using f(4) by simp
  have 4: "filter handoff_record (logged s') = filter handoff_record (logged s)"
    using f(5) ns by simp
  from cb h True 1 dur 2 3 4 show ?thesis by simp
qed

lemma run_duration_nonneg:
  assumes "0 < sample_rate cfg" "\<forall>c \<in> set cs. 0 < fst (snd c)"
  shows "0 \<le> run_duration cfg cs"
  unfolding run_duration_def using assms
  by (intro sum_list_nonneg) auto

lemma run_below_min_duration:
  assumes "0 < sample_rate cfg" "\<forall>c \<in> set cs. 0 < fst (snd c)"
    "(if recording s then recording_duration s else 0) + run_duration cfg cs < min_duration cfg"
  shows "\<exists>s'. run_callbacks cfg cs s = Inr s' \<and>
     recording s' = (recording s \<or> (\<exists>c \<in> set cs. rms_gt (rms (fst c)) (audio_threshold cfg))) \<and>
     scheduled s' = scheduled s \<and> queue_items s' = queue_items s \<and>
     filter handoff_record (logged s') = filter handoff_record (logged s)"
  using assms(2,3)
proof (induction cs arbitrary: s)
  case Nil
  then show ?case by simp
next
  case (Cons c cs)
  obtain indata frames status where c: "c = (indata, frames, status)" by (cases c)
  let ?d = "real_of_int frames / real_of_int (sample_rate cfg)"
  let ?b = "if recording s then recording_duration s else 0"
  have fr: "0 < frames" using Cons.prems(1) c by simp
  have pos: "\<forall>c \<in> set cs. 0 < fst (snd c)" using Cons.prems(1) by simp
  have d0: "0 < ?d" using fr assms(1) by simp
  have rest0: "0 \<le> run_duration cfg cs"
    using assms(1) pos by (rule run_duration_nonneg)
  have total: "?b + ?d + run_duration cfg cs < min_duration cfg"
    using Cons.prems(2) c by (simp add: run_duration_def)
  have below: "?b + ?d < min_duration cfg" using total rest0 by linarith
  from callback_below_min_duration [of frames cfg s indata status] fr assms(1) below
  obtain s1 where cb: "audio_callback cfg indata frames status s = Inr s1"
    and f: "recording s1 = (recording s \<or> rms_gt (rms indata) (audio_threshold cfg))"
      "recording s1 \<longrightarrow> recording_duration s1 = ?b + ?d"
      "scheduled s1 = scheduled s" "queue_items s1 = queue_items s"
      "filter handoff_record (logged s1) = filter handoff_record (logged s)"
    by auto
  have next_below:
    "(if recording s1 then recording_duration s1 else 0) + run_duration cfg cs < min_duration cfg"
    using f(1,2) total d0 by (cases "recording s1") (auto split: if_splits)
  from Cons.IH [OF pos next_below] obtain s' where run: "run_callbacks cfg cs s1 = Inr s'"
    and g: "recording s' =
        (recording s1 \<or> (\<exists>c \<in> set cs. rms_gt (rms (fst c)) (audio_threshold cfg)))"
      "scheduled s' = scheduled s1" "queue_items s' = queue_items s1"
      "filter handoff_record (logged s') = filter handoff_record (logged s1)"
    by blast
  show ?case using cb run f g c by simp
qed

lemma run_duration_take:
  assumes "0 < sample_rate cfg" "\<forall>c \<in> set cs. 0 < fst (snd c)"
  shows "run_duration cfg (take k cs) \<le> run_duration cfg cs"
proof -
  have "\<forall>c \<in> set (drop k cs). 0 < fst (snd c)"
    using assms(2) by (meson in_set_dropD)
  with assms(1) have "0 \<le> run_duration cfg (drop k cs)"
    by (rule run_duration_nonneg)
  moreover have "map (\<lambda>c. real_of_int (fst (snd c)) / real_of_int (sample_rate cfg)) cs =
      map (\<lambda>c. real_of_int (fst (snd c)) / real_of_int (sample_rate cfg)) (take k cs) @
      map (\<lambda>c. real_of_int (fst (snd c)) / real_of_int (sample_rate cfg)) (drop k cs)"
    by (simp only: map_append [symmetric] append_take_drop_id)
  then have "run_duration cfg cs =
      run_duration cfg (take k cs) + run_duration cfg (drop k cs)"
    unfolding run_duration_def by (simp only: sum_list_append)
  ultimately show ?thesis by linarith
qed

text \<open>
  Claim C2, as amended. The floor \<open>min_duration\<close> is on the accumulated duration of the
  recording, in which the silence after the speech counts as well. For every run of
  blocks from the idle state whose whole duration is strictly less than \<open>min_duration\<close>
  (blocks above the threshold followed by silence, in particular), after every block the
  callback has returned and no utterance has been emitted: none is scheduled, the queue is
  as it was, no hand-over is logged, and the detector is recording as soon as one block was
  above the threshold. This holds even when the silence has lasted longer than
  \<open>silence_threshold\<close>.
\<close>

theorem no_utterance_below_min_duration:
  assumes "\<not> recording s" "0 < sample_rate cfg" "\<forall>c \<in> set cs. 0 < fst (snd c)"
    "run_duration cfg cs < min_duration cfg"
  shows "\<forall>k \<le> length cs. \<exists>s'. run_callbacks cfg (take k cs) s = Inr s' \<and>
     scheduled s' = scheduled s \<and> queue_items s' = queue_items s \<and>
     filter handoff_record (logged s') = filter handoff_record (logged s) \<and>
     recording s' = (\<exists>c \<in> set (take k cs). rms_gt (rms (fst c)) (audio_threshold cfg))"
proof (intro allI impI)
  fix k assume "k \<le> length cs"
  have pos: "\<forall>c \<in> set (take k cs). 0 < fst (snd c)"
    using assms(3) by (meson in_set_takeD)
  have "run_duration cfg (take k cs) < min_duration cfg"
    using run_duration_take [OF assms(2,3), of k] assms(4) by linarith
  then have below: "(if recording s then recording_duration s else 0) +
      run_duration cfg (take k cs) < min_duration cfg"
    using assms(1) by simp
  from run_below_min_duration [OF assms(2) pos below]
  obtain s' where "run_callbacks cfg (take k cs) s = Inr s'"
    and "recording s' =
      (recording s \<or> (\<exists>c \<in> set (take k cs). rms_gt (rms (fst c)) (audio_threshold cfg)))"
    and "scheduled s' = scheduled s" "queue_items s' = queue_items s"
    and "filter handoff_record (logged s') = filter handoff_record (logged s)"
    by blast
  with assms(1)
  show "\<exists>s'. run_callbacks cfg (take k cs) s = Inr s' \<and>
     scheduled s' = scheduled s \<and> queue_items s' = queue_items s \<and>
     filter handoff_record (logged s') = filter handoff_record (logged s) \<and>
     recording s' = (\<exists>c \<in> set (take k cs). rms_gt (rms (fst c)) (audio_threshold cfg))"
    by (intro exI [of _ s']) simp
qed

theorem no_utterance_below_min_duration_witness:
  "map_sum id scheduled
     (run_callbacks (example_config\<lparr>min_duration := 2, silence_threshold := 1 / 2\<rparr>)
        [(loud_block, 2, False), (quiet_block, 2, False), (quiet_block, 2, False)]
        started_receiver) = Inr [] \<and>
   map_sum id recording
     (run_callbacks (example_config\<lparr>min_duration := 2, silence_threshold := 1 / 2\<rparr>)
        [(loud_block, 2, False), (quiet_block, 2, False), (quiet_block, 2, False)]
        started_receiver) = Inr True"
proof -
  let ?cfg = "example_config\<lparr>min_duration := 2, silence_threshold := 1 / 2\<rparr>"
  let ?cs = "[(loud_block, 2, False), (quiet_block, 2, False), (quiet_block, 2::int, False)]"
  have 1: "\<not> recording started_receiver" "scheduled started_receiver = []"
    by (simp_all add: started_receiver_def init_receiver_def)
  have 2: "0 < sample_rate ?cfg" by simp
  have 3: "\<forall>c \<in> set ?cs. 0 < fst (snd c)" by simp
  have 4: "run_duration ?cfg ?cs < min_duration ?cfg" by (simp add: run_duration_def)
  have 5: "(\<exists>c \<in> set ?cs. rms_gt (rms (fst c)) (audio_threshold ?cfg)) = True"
    by (simp add: rms_gt_def)
  have 6: "take 3 ?cs = ?cs" by simp
  have 7: "3 \<le> length ?cs" by simp
  from no_utterance_below_min_duration [OF 1(1) 2 3 4, rule_format, OF 7]
  obtain s' where "run_callbacks ?cfg ?cs started_receiver = Inr s'"
    "scheduled s' = []" "recording s'"
    unfolding 6 5 1(2) by blast
  then show ?thesis by (simp del: run_callbacks.simps)
qed

text \<open>
  Against the claim as it was stated: with \<open>min_duration\<close> and \<open>silence_threshold\<close> of one
  second and blocks of half a second, one block above the threshold (half a second, less
  than \<open>min_duration\<close>) followed by two silent blocks ends with the utterance handed over:
  after the third block the recording has lasted 1.5 seconds and the silence 1 second.
\<close>

theorem short_speech_emitted_counterexample:
  "map_sum id scheduled
     (run_callbacks example_config
        [(loud_block, 2, False), (quiet_block, 2, False), (quiet_block, 2, False)]
        started_receiver) =
     Inr [concat [loud_block, loud_block, quiet_block, quiet_block]]"
proof -
  let ?s1 = "started_receiver\<lparr>pre_roll_buffer := [loud_block], recording := True,
    audio_frames := [loud_block, loud_block], recording_duration := 1 / 2,
    logged := [(DEBUG, ''Started recording'')]\<rparr>"
  let ?s2 = "?s1\<lparr>pre_roll_buffer := [loud_block, quiet_block],
    audio_frames := [loud_block, loud_block, quiet_block], recording_duration := 1,
    silence_counter := 1 / 2\<rparr>"
  let ?s3 = "?s2\<lparr>pre_roll_buffer := [quiet_block, quiet_block], recording := False,
    audio_frames := [], recording_duration := 3 / 2, silence_counter := 1,
    scheduled := [concat [loud_block, loud_block, quiet_block, quiet_block]],
    logged := [(DEBUG, ''Started recording''), (DEBUG, ''Queued audio for processing'')]\<rparr>"
  have 1: "audio_callback example_config loud_block 2 False started_receiver = Inr ?s1"
    by (simp add: callback_eval)
  have 2: "audio_callback example_config quiet_block 2 False ?s1 = Inr ?s2"
    by (simp add: callback_eval)
  have 3: "audio_callback example_config quiet_block 2 False ?s2 = Inr ?s3"
    by (simp add: callback_eval)
  show ?thesis unfolding run_callbacks.simps 1 2 3 sum.case by simp
qed

section \<open>Continuous speech\<close>

lemma run_callbacks_append:
  "run_callbacks cfg (xs @ ys) s =
     (case run_callbacks cfg xs s of Inl e \<Rightarrow> Inl e | Inr s1 \<Rightarrow> run_callbacks cfg ys s1)"
  by (induction xs arbitrary: s) (auto split: sum.splits)

lemma queue_full_cong:
  "queue_items s' = queue_items s \<Longrightarrow> queue_full cfg s' = queue_full cfg s"
  by (simp add: queue_full_def)

text \<open>
  A block above the threshold resets the silence; with a positive \<open>silence_threshold\<close> and
  \<open>min_duration \<le> max_duration\<close> it ends the recording exactly when the accumulated
  duration reaches \<open>max_duration\<close>.
\<close>

lemma handle_recording_loud:
  assumes "recording t" "rms_gt r (audio_threshold cfg)" "sample_rate cfg \<noteq> 0"
    "0 < silence_threshold cfg" "min_duration cfg \<le> max_duration cfg"
  shows "\<exists>s'. handle_recording cfg x r n t = Inr s' \<and>
     recording_duration s' = recording_duration t + frame_duration cfg n \<and>
     recording s' = (recording_duration t + frame_duration cfg n < max_duration cfg) \<and>
     audio_frames s' = (if recording s' then audio_frames t @ [x] else []) \<and>
     scheduled s' =
       (if \<not> recording s' \<and> loop t = Some LoopRunning \<and> \<not> queue_full cfg t
        then scheduled t @ [concat (audio_frames t @ [x])] else scheduled t) \<and>
     loop s' = loop t \<and> queue_items s' = queue_items t \<and>
     pre_roll_buffer s' = pre_roll_buffer t"
proof -
  from handle_recording_Inr [OF assms(3), of x r n t]
  obtain s' where h: "handle_recording cfg x r n t = Inr s'"
    and f: "recording_duration s' = recording_duration t + frame_duration cfg n"
     "silence_counter s' =
       (if rms_le r (audio_threshold cfg) then silence_counter t + frame_duration cfg n else 0)"
     "recording s' = (recording t \<and> \<not> should_stop_recording cfg s')"
     "audio_frames s' = (if should_stop_recording cfg s' then [] else audio_frames t @ [x])"
     "scheduled s' =
       (if should_stop_recording cfg s' \<and> loop t = Some LoopRunning \<and> \<not> queue_full cfg t
        then scheduled t @ [concat (audio_frames t @ [x])] else scheduled t)"
     "loop s' = loop t" "queue_items s' = queue_items t" "pre_roll_buffer s' = pre_roll_buffer t"
    unfolding frame_duration_def by blast
  have "\<not> rms_le r (audio_threshold cfg)"
    using assms(2) by (auto simp: rms_gt_def rms_le_def split: option.splits)
  then have sil: "silence_counter s' = 0" using f(2) by simp
  have stop: "should_stop_recording cfg s' =
      (\<not> recording_duration t + frame_duration cfg n < max_duration cfg)"
    using sil f(1) assms(4,5) by (auto simp: should_stop_recording_def)
  have rec: "recording s' = (recording_duration t + frame_duration cfg n < max_duration cfg)"
    using f(3) assms(1) stop by simp
  have stop': "should_stop_recording cfg s' = (\<not> recording s')" using stop rec by simp
  have 4: "audio_frames s' = (if recording s' then audio_frames t @ [x] else [])"
    using f(4) stop' by simp
  have 5: "scheduled s' =
       (if \<not> recording s' \<and> loop t = Some LoopRunning \<and> \<not> queue_full cfg t
        then scheduled t @ [concat (audio_frames t @ [x])] else scheduled t)"
    using f(5) stop' by simp
  from h f(1) rec 4 5 f(6,7,8) show ?thesis by blast
qed

lemma callback_loud_recording:
  assumes "recording s" "rms_gt (rms x) (audio_threshold cfg)" "0 < n" "0 < sample_rate cfg"
    "0 < silence_threshold cfg" "min_duration cfg \<le> max_duration cfg"
  shows "\<exists>s'. audio_callback cfg x n st s = Inr s' \<and>
     recording_duration s' = recording_duration s + frame_duration cfg n \<and>
     recording s' = (recording_duration s + frame_duration cfg n < max_duration cfg) \<and>
     audio_frames s' = (if recording s' then audio_frames s @ [x] else []) \<and>
     scheduled s' =
       (if \<not> recording s' \<and> loop s = Some LoopRunning \<and> \<not> queue_full cfg s
        then scheduled s @ [concat (audio_frames s @ [x])] else scheduled s) \<and>
     loop s' = loop s \<and> queue_items s' = queue_items s"
proof -
  let ?u = "update_pre_roll cfg x n st s"
  have n0: "n \<noteq> 0" and sr: "sample_rate cfg \<noteq> 0" using assms(3,4) by simp_all
  have ru: "recording ?u" using assms(1) by simp
  have cb: "audio_callback cfg x n st s = handle_recording cfg x (rms x) n ?u"
    using assms(1) n0 by (simp add: audio_callback_cases)
  have g: "queue_full cfg ?u = queue_full cfg s" "recording_duration ?u = recording_duration s"
    "audio_frames ?u = audio_frames s" "scheduled ?u = scheduled s" "loop ?u = loop s"
    "queue_items ?u = queue_items s"
    by (simp_all add: queue_full_def)
  from handle_recording_loud [OF ru assms(2) sr assms(5,6), of x n]
  show ?thesis unfolding cb g by blast
qed

lemma callback_loud_idle:
  assumes "\<not> recording s" "rms_gt (rms x) (audio_threshold cfg)" "0 < n" "0 < sample_rate cfg"
    "0 < silence_threshold cfg" "min_duration cfg \<le> max_duration cfg"
  shows "\<exists>s'. audio_callback cfg x n st s = Inr s' \<and>
     recording_duration s' = frame_duration cfg n \<and>
     recording s' = (frame_duration cfg n < max_duration cfg) \<and>
     audio_frames s' =
       (if recording s' then pre_roll_buffer (update_pre_roll cfg x n st s) @ [x] else []) \<and>
     scheduled s' =
       (if \<not> recording s' \<and> loop s = Some LoopRunning \<and> \<not> queue_full cfg s
        then scheduled s @ [concat (pre_roll_buffer (update_pre_roll cfg x n st s) @ [x])]
        else scheduled s) \<and>
     loop s' = loop s \<and> queue_items s' = queue_items s"
proof -
  let ?t = "start_recording (update_pre_roll cfg x n st s)"
  have n0: "n \<noteq> 0" and sr: "sample_rate cfg \<noteq> 0" using assms(3,4) by simp_all
  have rt: "recording ?t" by simp
  have cb: "audio_callback cfg x n st s = handle_recording cfg x (rms x) n ?t"
    using assms(1,2) n0 by (simp add: audio_callback_cases)
  have g: "queue_full cfg ?t = queue_full cfg s" "recording_duration ?t = 0"
    "audio_frames ?t = pre_roll_buffer (update_pre_roll cfg x n st s)"
    "scheduled ?t = scheduled s" "loop ?t = loop s" "queue_items ?t = queue_items s"
    by (simp_all add: queue_full_def)
  from handle_recording_loud [OF rt assms(2) sr assms(5,6), of x n]
  show ?thesis unfolding cb g add_0 by blast
qed

lemma frame_duration_pos: "0 < n \<Longrightarrow> 0 < sample_rate cfg \<Longrightarrow> 0 < frame_duration cfg n"
  by (simp add: frame_duration_def)

text \<open>While the accumulated duration stays below \<open>max_duration\<close>, the recording goes on.\<close>

lemma loud_run_keeps_recording:
  assumes "0 < n" "0 < sample_rate cfg" "0 < silence_threshold cfg"
    "min_duration cfg \<le> max_duration cfg"
  shows "recording s \<Longrightarrow>
     \<forall>c \<in> set cs. fst (snd c) = n \<and> rms_gt (rms (fst c)) (audio_threshold cfg) \<Longrightarrow>
     recording_duration s + real (length cs) * frame_duration cfg n < max_duration cfg \<Longrightarrow>
     \<exists>s'. run_callbacks cfg cs s = Inr s' \<and> recording s' \<and>
       recording_duration s' = recording_duration s + real (length cs) * frame_duration cfg n \<and>
       audio_frames s' = audio_frames s @ map fst cs \<and> scheduled s' = scheduled s \<and>
       loop s' = loop s \<and> queue_items s' = queue_items s"
proof (induction cs arbitrary: s)
  case Nil
  then show ?case by simp
next
  case (Cons c cs)
  obtain x frames st where c: "c = (x, frames, st)" by (cases c)
  from Cons.prems(2) c have fr: "frames = n"
    and loud: "rms_gt (rms x) (audio_threshold cfg)" by simp_all
  have rest: "\<forall>c \<in> set cs. fst (snd c) = n \<and> rms_gt (rms (fst c)) (audio_threshold cfg)"
    using Cons.prems(2) by simp
  let ?d = "frame_duration cfg n"
  have d0: "0 < ?d" using assms(1,2) by (rule frame_duration_pos)
  have total: "recording_duration s + ?d + real (length cs) * ?d < max_duration cfg"
    using Cons.prems(3) by (simp add: algebra_simps)
  have "0 \<le> real (length cs) * ?d" using d0 by simp
  with total have below: "recording_duration s + ?d < max_duration cfg" by linarith
  from callback_loud_recording [OF Cons.prems(1) loud assms, of st]
  obtain s1 where cb: "audio_callback cfg x n st s = Inr s1"
    and f: "recording_duration s1 = recording_duration s + ?d"
      "recording s1 = (recording_duration s + ?d < max_duration cfg)"
      "audio_frames s1 = (if recording s1 then audio_frames s @ [x] else [])"
      "scheduled s1 =
        (if \<not> recording s1 \<and> loop s = Some LoopRunning \<and> \<not> queue_full cfg s
         then scheduled s @ [concat (audio_frames s @ [x])] else scheduled s)"
      "loop s1 = loop s" "queue_items s1 = queue_items s"
    by blast
  have r1: "recording s1" using f(2) below by simp
  have next_total: "recording_duration s1 + real (length cs) * ?d < max_duration cfg"
    using f(1) total by simp
  from Cons.IH [OF r1 rest next_total] obtain s' where run: "run_callbacks cfg cs s1 = Inr s'"
    and g: "recording s'"
      "recording_duration s' = recording_duration s1 + real (length cs) * ?d"
      "audio_frames s' = audio_frames s1 @ map fst cs" "scheduled s' = scheduled s1"
      "loop s' = loop s1" "queue_items s' = queue_items s1"
    by blast
  have 1: "run_callbacks cfg (c # cs) s = Inr s'" using cb run c fr by simp
  have 2: "recording_duration s' =
      recording_duration s + real (length (c # cs)) * ?d"
    using g(2) f(1) by (simp add: algebra_simps)
  have 3: "audio_frames s' = audio_frames s @ map fst (c # cs)"
    using g(3) f(3) r1 c by simp
  have 4: "scheduled s' = scheduled s" using g(4) f(4) r1 by simp
  have 5: "loop s' = loop s" "queue_items s' = queue_items s" using g(5,6) f(5,6) by simp_all
  from 1 g(1) 2 3 4 5 show ?case by blast
qed

text \<open>The block with which the accumulated duration reaches \<open>max_duration\<close> ends it.\<close>

lemma loud_run_until_max_duration:
  assumes "0 < n" "0 < sample_rate cfg" "0 < silence_threshold cfg"
    "min_duration cfg \<le> max_duration cfg" "recording s"
    "\<forall>c \<in> set cs. fst (snd c) = n \<and> rms_gt (rms (fst c)) (audio_threshold cfg)"
    "recording_duration s + real (length cs) * frame_duration cfg n < max_duration cfg"
    "rms_gt (rms x) (audio_threshold cfg)"
  shows "\<exists>s'. run_callbacks cfg (cs @ [(x, n, st)]) s = Inr s' \<and>
       recording_duration s' =
         recording_duration s + real (length cs + 1) * frame_duration cfg n \<and>
       recording s' = (recording_duration s' < max_duration cfg) \<and>
       audio_frames s' = (if recording s' then audio_frames s @ map fst cs @ [x] else []) \<and>
       scheduled s' =
         (if \<not> recording s' \<and> loop s = Some LoopRunning \<and> \<not> queue_full cfg s
          then scheduled s @ [concat (audio_frames s @ map fst cs @ [x])] else scheduled s) \<and>
       loop s' = loop s \<and> queue_items s' = queue_items s"
proof -
  let ?d = "frame_duration cfg n"
  from loud_run_keeps_recording [OF assms(1-7)]
  obtain s1 where run: "run_callbacks cfg cs s = Inr s1"
    and g: "recording s1"
      "recording_duration s1 = recording_duration s + real (length cs) * ?d"
      "audio_frames s1 = audio_frames s @ map fst cs" "scheduled s1 = scheduled s"
      "loop s1 = loop s" "queue_items s1 = queue_items s"
    by blast
  from callback_loud_recording [OF g(1) assms(8) assms(1-4), of st]
  obtain s' where cb: "audio_callback cfg x n st s1 = Inr s'"
    and f: "recording_duration s' = recording_duration s1 + ?d"
      "recording s' = (recording_duration s1 + ?d < max_duration cfg)"
      "audio_frames s' = (if recording s' then audio_frames s1 @ [x] else [])"
      "scheduled s' =
        (if \<not> recording s' \<and> loop s1 = Some LoopRunning \<and> \<not> queue_full cfg s1
         then scheduled s1 @ [concat (audio_frames s1 @ [x])] else scheduled s1)"
      "loop s' = loop s1" "queue_items s' = queue_items s1"
    by blast
  have qf: "queue_full cfg s1 = queue_full cfg s" using g(6) by (rule queue_full_cong)
  have 1: "run_callbacks cfg (cs @ [(x, n, st)]) s = Inr s'"
    using run cb by (simp add: run_callbacks_append)
  have 2: "recording_duration s' = recording_duration s + real (length cs + 1) * ?d"
    using f(1) g(2) by (simp add: algebra_simps)
  have 3: "recording s' = (recording_duration s' < max_duration cfg)"
    using f(2) f(1) by simp
  have 4: "audio_frames s' = (if recording s' then audio_frames s @ map fst cs @ [x] else [])"
    using f(3) g(3) by simp
  have 5: "scheduled s' =
         (if \<not> recording s' \<and> loop s = Some LoopRunning \<and> \<not> queue_full cfg s
          then scheduled s @ [concat (audio_frames s @ map fst cs @ [x])] else scheduled s)"
    using f(4) g(3,4,5) qf by simp
  have 6: "loop s' = loop s" "queue_items s' = queue_items s" using f(5,6) g(5,6) by simp_all
  from 1 2 3 4 5 6 show ?thesis by blast
qed

text \<open>
  Claim C3, as amended. Let the sample rate, the block length \<open>n\<close> and \<open>silence_threshold\<close>
  be positive and \<open>min_duration \<le> max_duration\<close>. Let the detector be idle and every block
  of a run have an RMS above the threshold, the run being so long that the accumulated
  duration was below \<open>max_duration\<close> before its last block. Then every callback returns; the
  recording, started by the first block, has the duration of the whole run, and it is ended
  by the last block exactly if with it the duration has reached \<open>max_duration\<close> (which it
  then exceeds by less than one block). In that case the utterance (the pre-roll buffer at
  the first block followed by all blocks) is handed over, whether or not more signal
  follows, and the detector is idle: the next block above the threshold starts a new
  recording in its own callback, with the duration of that one block.
\<close>

theorem continuous_speech_cut_at_max_duration:
  assumes "\<not> recording s" "0 < n" "0 < sample_rate cfg" "0 < silence_threshold cfg"
    "min_duration cfg \<le> max_duration cfg"
    "\<forall>c \<in> set (c0 # cs). fst (snd c) = n \<and> rms_gt (rms (fst c)) (audio_threshold cfg)"
    "real (length cs) * frame_duration cfg n < max_duration cfg"
  shows "\<exists>s'. run_callbacks cfg (c0 # cs) s = Inr s' \<and>
     recording_duration s' = real (length cs + 1) * frame_duration cfg n \<and>
     recording s' = (recording_duration s' < max_duration cfg) \<and>
     recording_duration s' < max_duration cfg + frame_duration cfg n \<and>
     audio_frames s' =
       (if recording s'
        then pre_roll_buffer (update_pre_roll cfg (fst c0) n (snd (snd c0)) s) @ map fst (c0 # cs)
        else []) \<and>
     scheduled s' =
       (if \<not> recording s' \<and> loop s = Some LoopRunning \<and> \<not> queue_full cfg s
        then scheduled s @
          [concat (pre_roll_buffer (update_pre_roll cfg (fst c0) n (snd (snd c0)) s) @
             map fst (c0 # cs))]
        else scheduled s) \<and>
     (\<forall>y st'. \<not> recording s' \<and> rms_gt (rms y) (audio_threshold cfg) \<longrightarrow>
        (\<exists>s''. audio_callback cfg y n st' s' = Inr s'' \<and>
           recording_duration s'' = frame_duration cfg n \<and>
           recording s'' = (frame_duration cfg n < max_duration cfg) \<and>
           audio_frames s'' =
             (if recording s'' then pre_roll_buffer (update_pre_roll cfg y n st' s') @ [y]
              else [])))"
proof -
  let ?d = "frame_duration cfg n"
  obtain x n0 st where c0: "c0 = (x, n0, st)" by (cases c0)
  from assms(6) c0 have n0: "n0 = n" and loud: "rms_gt (rms x) (audio_threshold cfg)"
    by simp_all
  let ?P = "pre_roll_buffer (update_pre_roll cfg x n st s)"
  have d0: "0 < ?d" using assms(2,3) by (rule frame_duration_pos)
  from callback_loud_idle [OF assms(1) loud assms(2-5), of st]
  obtain s1 where cb: "audio_callback cfg x n st s = Inr s1"
    and f: "recording_duration s1 = ?d" "recording s1 = (?d < max_duration cfg)"
      "audio_frames s1 = (if recording s1 then ?P @ [x] else [])"
      "scheduled s1 =
        (if \<not> recording s1 \<and> loop s = Some LoopRunning \<and> \<not> queue_full cfg s
         then scheduled s @ [concat (?P @ [x])] else scheduled s)"
      "loop s1 = loop s" "queue_items s1 = queue_items s"
    by blast
  have main: "\<exists>s'. run_callbacks cfg (c0 # cs) s = Inr s' \<and>
     recording_duration s' = real (length cs + 1) * ?d \<and>
     recording s' = (recording_duration s' < max_duration cfg) \<and>
     audio_frames s' = (if recording s' then ?P @ map fst (c0 # cs) else []) \<and>
     scheduled s' =
       (if \<not> recording s' \<and> loop s = Some LoopRunning \<and> \<not> queue_full cfg s
        then scheduled s @ [concat (?P @ map fst (c0 # cs))] else scheduled s)"
  proof (cases cs rule: rev_cases)
    case Nil
    have 1: "run_callbacks cfg (c0 # cs) s = Inr s1" using cb c0 n0 Nil by simp
    have 2: "recording_duration s1 = real (length cs + 1) * ?d" using f(1) Nil by simp
    have 3: "recording s1 = (recording_duration s1 < max_duration cfg)" using f(1,2) by simp
    have 4: "audio_frames s1 = (if recording s1 then ?P @ map fst (c0 # cs) else [])"
      using f(3) Nil c0 by simp
    have 5: "scheduled s1 =
       (if \<not> recording s1 \<and> loop s = Some LoopRunning \<and> \<not> queue_full cfg s
        then scheduled s @ [concat (?P @ map fst (c0 # cs))] else scheduled s)"
      using f(4) Nil c0 by simp
    from 1 2 3 4 5 show ?thesis by blast
  next
    case (snoc mid c)
    obtain y n1 st1 where c: "c = (y, n1, st1)" by (cases c)
    from assms(6) snoc c have n1: "n1 = n" and loudy: "rms_gt (rms y) (audio_threshold cfg)"
      by simp_all
    have mid: "\<forall>c \<in> set mid. fst (snd c) = n \<and> rms_gt (rms (fst c)) (audio_threshold cfg)"
      using assms(6) snoc by simp
    have before: "?d + real (length mid) * ?d < max_duration cfg"
      using assms(7) snoc by (simp add: algebra_simps)
    have "0 \<le> real (length mid) * ?d" using d0 by simp
    with before have "?d < max_duration cfg" by linarith
    then have r1: "recording s1" using f(2) by simp
    have before1: "recording_duration s1 + real (length mid) * ?d < max_duration cfg"
      using before f(1) by simp
    from loud_run_until_max_duration [OF assms(2-5) r1 mid before1 loudy, of st1]
    obtain s' where run: "run_callbacks cfg (mid @ [(y, n, st1)]) s1 = Inr s'"
      and g: "recording_duration s' = recording_duration s1 + real (length mid + 1) * ?d"
        "recording s' = (recording_duration s' < max_duration cfg)"
        "audio_frames s' = (if recording s' then audio_frames s1 @ map fst mid @ [y] else [])"
        "scheduled s' =
          (if \<not> recording s' \<and> loop s1 = Some LoopRunning \<and> \<not> queue_full cfg s1
           then scheduled s1 @ [concat (audio_frames s1 @ map fst mid @ [y])]
           else scheduled s1)"
      by blast
    have qf: "queue_full cfg s1 = queue_full cfg s" using f(6) by (rule queue_full_cong)
    have fr1: "audio_frames s1 = ?P @ [x]" "scheduled s1 = scheduled s"
      using f(3,4) r1 by simp_all
    have 1: "run_callbacks cfg (c0 # cs) s = Inr s'"
      using cb run c0 n0 snoc c n1 by simp
    have 2: "recording_duration s' = real (length cs + 1) * ?d"
      using g(1) f(1) snoc by (simp add: algebra_simps)
    have 4: "audio_frames s' = (if recording s' then ?P @ map fst (c0 # cs) else [])"
      using g(3) fr1 snoc c0 c by simp
    have 5: "scheduled s' =
       (if \<not> recording s' \<and> loop s = Some LoopRunning \<and> \<not> queue_full cfg s
        then scheduled s @ [concat (?P @ map fst (c0 # cs))] else scheduled s)"
      using g(4) fr1 f(5) qf snoc c0 c by simp
    from 1 2 g(2) 4 5 show ?thesis by blast
  qed
  then obtain s' where run: "run_callbacks cfg (c0 # cs) s = Inr s'"
    and h: "recording_duration s' = real (length cs + 1) * ?d"
      "recording s' = (recording_duration s' < max_duration cfg)"
      "audio_frames s' = (if recording s' then ?P @ map fst (c0 # cs) else [])"
      "scheduled s' =
       (if \<not> recording s' \<and> loop s = Some LoopRunning \<and> \<not> queue_full cfg s
        then scheduled s @ [concat (?P @ map fst (c0 # cs))] else scheduled s)"
    by blast
  have within: "recording_duration s' < max_duration cfg + ?d"
    using h(1) assms(7) by (simp add: algebra_simps)
  have again: "\<forall>y st'. \<not> recording s' \<and> rms_gt (rms y) (audio_threshold cfg) \<longrightarrow>
        (\<exists>s''. audio_callback cfg y n st' s' = Inr s'' \<and>
           recording_duration s'' = ?d \<and> recording s'' = (?d < max_duration cfg) \<and>
           audio_frames s'' =
             (if recording s'' then pre_roll_buffer (update_pre_roll cfg y n st' s') @ [y]
              else []))"
  proof (intro allI impI)
    fix y st' assume a: "\<not> recording s' \<and> rms_gt (rms y) (audio_threshold cfg)"
    then have idle: "\<not> recording s'" and ly: "rms_gt (rms y) (audio_threshold cfg)"
      by simp_all
    from callback_loud_idle [OF idle ly assms(2-5), of st']
    show "\<exists>s''. audio_callback cfg y n st' s' = Inr s'' \<and>
           recording_duration s'' = ?d \<and> recording s'' = (?d < max_duration cfg) \<and>
           audio_frames s'' =
             (if recording s'' then pre_roll_buffer (update_pre_roll cfg y n st' s') @ [y]
              else [])"
      by blast
  qed
  have P: "pre_roll_buffer (update_pre_roll cfg (fst c0) n (snd (snd c0)) s) = ?P"
    using c0 by simp
  from run h within again show ?thesis unfolding P by blast
qed

theorem continuous_speech_cut_at_max_duration_witness:
  "map_sum id scheduled
     (run_callbacks example_config
        [(loud_block, 2, False), (loud_block, 2, False), (loud_block, 2, False),
         (loud_block, 2, False)] started_receiver) =
     Inr [concat [loud_block, loud_block, loud_block, loud_block, loud_block]] \<and>
   map_sum id recording
     (run_callbacks example_config
        [(loud_block, 2, False), (loud_block, 2, False), (loud_block, 2, False),
         (loud_block, 2, False)] started_receiver) = Inr False"
proof -
  let ?c = "(loud_block, 2::int, False)"
  let ?cs = "[?c, ?c, ?c]"
  have 1: "\<not> recording started_receiver" "scheduled started_receiver = []"
    "loop started_receiver = Some LoopRunning" "\<not> queue_full example_config started_receiver"
    by (simp_all add: started_receiver_def init_receiver_def queue_full_def)
  have 2: "(0::int) < 2" "0 < sample_rate example_config"
    "0 < silence_threshold example_config"
    "min_duration example_config \<le> max_duration example_config"
    by simp_all
  have 3: "\<forall>c \<in> set (?c # ?cs).
      fst (snd c) = 2 \<and> rms_gt (rms (fst c)) (audio_threshold example_config)"
    by (simp add: rms_gt_def)
  have 4: "real (length ?cs) * frame_duration example_config 2 < max_duration example_config"
    by (simp add: frame_duration_def)
  have P: "pre_roll_buffer (update_pre_roll example_config (fst ?c) 2 (snd (snd ?c))
      started_receiver) = [loud_block]"
    by (simp add: started_receiver_def init_receiver_def)
  from continuous_speech_cut_at_max_duration [OF 1(1) 2 3 4]
  obtain s' where run: "run_callbacks example_config (?c # ?cs) started_receiver = Inr s'"
    and d: "recording_duration s' = real (length ?cs + 1) * frame_duration example_config 2"
    and r: "recording s' = (recording_duration s' < max_duration example_config)"
    and q: "scheduled s' =
       (if \<not> recording s' \<and> loop started_receiver = Some LoopRunning \<and>
           \<not> queue_full example_config started_receiver
        then scheduled started_receiver @ [concat ([loud_block] @ map fst (?c # ?cs))]
        else scheduled started_receiver)"
    unfolding P by blast
  have "recording_duration s' = 2" using d by (simp add: frame_duration_def)
  then have nr: "\<not> recording s'" using r by simp
  then have "scheduled s' = [concat [loud_block, loud_block, loud_block, loud_block, loud_block]]"
    using q 1 by simp
  with run nr show ?thesis by (simp del: run_callbacks.simps)
qed

text \<open>
  Against the claim as it was stated: with \<open>min_duration\<close> of two seconds above a
  \<open>max_duration\<close> of one second and blocks of half a second, all above the threshold, the
  recording has reached \<open>max_duration\<close> with the second block and passed it by a whole
  block with the third, and no utterance has been emitted: the detector is still recording
  and nothing is scheduled.
\<close>

theorem max_duration_below_min_counterexample:
  "map_sum id recording
     (run_callbacks (example_config\<lparr>min_duration := 2, max_duration := 1\<rparr>)
        [(loud_block, 2, False), (loud_block, 2, False), (loud_block, 2, False)]
        started_receiver) = Inr True \<and>
   map_sum id scheduled
     (run_callbacks (example_config\<lparr>min_duration := 2, max_duration := 1\<rparr>)
        [(loud_block, 2, False), (loud_block, 2, False), (loud_block, 2, False)]
        started_receiver) = Inr []"
proof -
  let ?cfg = "example_config\<lparr>min_duration := 2, max_duration := 1\<rparr>"
  let ?cs = "[(loud_block, 2::int, False), (loud_block, 2, False), (loud_block, 2, False)]"
  have 1: "\<not> recording started_receiver" "scheduled started_receiver = []"
    by (simp_all add: started_receiver_def init_receiver_def)
  have 2: "0 < sample_rate ?cfg" by simp
  have 3: "\<forall>c \<in> set ?cs. 0 < fst (snd c)" by simp
  have 4: "(if recording started_receiver then recording_duration started_receiver else 0) +
      run_duration ?cfg ?cs < min_duration ?cfg"
    using 1(1) by (simp add: run_duration_def)
  have 5: "(\<exists>c \<in> set ?cs. rms_gt (rms (fst c)) (audio_threshold ?cfg)) = True"
    by (simp add: rms_gt_def)
  from run_below_min_duration [OF 2 3 4]
  obtain s' where "run_callbacks ?cfg ?cs started_receiver = Inr s'"
    "recording s'" "scheduled s' = []"
    unfolding 5 1(2) by blast
  then show ?thesis by (simp del: run_callbacks.simps)
qed

section \<open>The hand-off\<close>

text \<open>What \<^verbatim>\<open>_transcribe_audio\<close> leaves alone.\<close>

lemma transcribe_audio_frame:
  "queue_items (transcribe_audio env a s) = queue_items s"
  "scheduled (transcribe_audio env a s) = scheduled s"
  "terminate_flag (transcribe_audio env a s) = terminate_flag s"
  "loop (transcribe_audio env a s) = loop s"
  by (simp_all add: transcribe_audio_def Let_def split: prod.splits sum.splits option.splits)

text \<open>A callback leaves the queue alone and at most appends to the scheduled puts.\<close>

lemma audio_callback_queue:
  assumes "audio_callback cfg x n st s = Inr s'"
  shows "queue_items s' = queue_items s"
    and "scheduled s' = scheduled s @ drop (length (scheduled s)) (scheduled s')"
proof -
  have n0: "n \<noteq> 0" using assms by (auto simp: audio_callback_def Let_def split: if_splits)
  let ?u = "update_pre_roll cfg x n st s"
  have "queue_items s' = queue_items s \<and> (\<exists>new. scheduled s' = scheduled s @ new)"
  proof (cases "recording s \<or> rms_gt (rms x) (audio_threshold cfg)")
    case False
    then have "s' = ?u" using assms n0 by (simp add: audio_callback_cases)
    then show ?thesis by simp
  next
    case True
    let ?t = "if recording s then ?u else start_recording ?u"
    have cb: "handle_recording cfg x (rms x) n ?t = Inr s'"
      using True assms n0 by (auto simp: audio_callback_cases)
    then have sr: "sample_rate cfg \<noteq> 0"
      by (auto simp: handle_recording_def Let_def split: if_splits)
    from handle_recording_Inr [OF sr, of x "rms x" n ?t] cb
    have "queue_items s' = queue_items ?t"
      "scheduled s' =
       (if should_stop_recording cfg s' \<and> loop ?t = Some LoopRunning \<and> \<not> queue_full cfg ?t
        then scheduled ?t @ [concat (audio_frames ?t @ [x])] else scheduled ?t)"
      by auto
    then show ?thesis by (auto split: if_splits)
  qed
  then show "queue_items s' = queue_items s"
    and "scheduled s' = scheduled s @ drop (length (scheduled s)) (scheduled s')"
    by auto
qed

text \<open>
  Every step of the receiver keeps the utterances in line: what has been taken from the
  queue, then the queue, then the scheduled puts.
\<close>

lemma receiver_step_fifo:
  assumes "receiver_step cfg env ev s = Some s'"
  shows "(if ev = DrainStep \<and> drain s = AwaitGet then take 1 (queue_items s) else []) @
      queue_items s' @ scheduled s' =
    queue_items s @ scheduled s @
      (case ev of Block x n st \<Rightarrow> drop (length (scheduled s)) (scheduled s') | _ \<Rightarrow> [])"
proof (cases ev)
  case (Block x n st)
  with assms have cb: "audio_callback cfg x n st s = Inr s'"
    by (simp split: sum.splits)
  from audio_callback_queue [OF cb] Block show ?thesis by simp
next
  case LoopPut
  with assms show ?thesis
    by (auto simp: loop_put_def split: list.splits if_splits)
next
  case DrainStep
  with assms show ?thesis
    by (auto simp: process_audio_queue_step_def transcribe_audio_frame
        split: drain_pc.splits list.splits if_splits)
next
  case Stop
  with assms show ?thesis by (auto simp: stop_def)
qed

lemma receiver_run_fifo:
  "receiver_run cfg env evs s = Some s' \<Longrightarrow>
   dequeued cfg env evs s @ queue_items s' @ scheduled s' =
     queue_items s @ scheduled s @ accepted cfg env evs s"
proof (induction evs arbitrary: s)
  case Nil
  then show ?case by simp
next
  case (Cons ev evs)
  from Cons.prems obtain s1 where step: "receiver_step cfg env ev s = Some s1"
    and run: "receiver_run cfg env evs s1 = Some s'"
    by (auto split: option.splits)
  let ?deq = "if ev = DrainStep \<and> drain s = AwaitGet then take 1 (queue_items s) else []"
  let ?acc = "case ev of Block x n st \<Rightarrow> drop (length (scheduled s)) (scheduled s1) | _ \<Rightarrow> []"
  have 1: "?deq @ queue_items s1 @ scheduled s1 = queue_items s @ scheduled s @ ?acc"
    using step by (rule receiver_step_fifo)
  have 2: "dequeued cfg env evs s1 @ queue_items s' @ scheduled s' =
      queue_items s1 @ scheduled s1 @ accepted cfg env evs s1"
    using run by (rule Cons.IH)
  have d: "dequeued cfg env (ev # evs) s = ?deq @ dequeued cfg env evs s1"
    using step by simp
  have a: "accepted cfg env (ev # evs) s = ?acc @ accepted cfg env evs s1"
    using step by simp
  have "dequeued cfg env (ev # evs) s @ queue_items s' @ scheduled s' =
      ?deq @ (queue_items s1 @ scheduled s1 @ accepted cfg env evs s1)"
    unfolding d using 2 by simp
  also have "\<dots> = (?deq @ queue_items s1 @ scheduled s1) @ accepted cfg env evs s1"
    by simp
  also have "\<dots> = (queue_items s @ scheduled s @ ?acc) @ accepted cfg env evs s1"
    unfolding 1 ..
  also have "\<dots> = queue_items s @ scheduled s @ accepted cfg env (ev # evs) s"
    unfolding a by simp
  finally show ?case .
qed

text \<open>
  Claim C6, as amended. When a segment completes, \<^verbatim>\<open>_stop_recording\<close> returns (it never
  waits), the detector is idle with an empty utterance buffer, so that capture continues,
  and the queue itself is untouched. If the queue is full, the utterance is dropped and a
  warning is logged. If the queue is not full and the receiver's loop is set and running,
  the put of the utterance is scheduled on the loop behind the puts scheduled before, and
  the loop appends the utterance at the head of the scheduled puts to the tail of the queue
  as soon as the queue is not full. If the loop is not set the utterance is dropped with
  the same warning, although the queue is not full. In every run of the receiver the
  utterances taken from the queue, followed by the queue and the scheduled puts, are the
  utterances that were in the queue and scheduled at the start followed by the accepted
  ones in the order of their acceptance: utterances are dequeued in FIFO order.
\<close>

theorem handoff_never_blocks_and_is_fifo:
  "(audio_frames s \<noteq> [] \<longrightarrow>
      (\<exists>s'. stop_recording cfg s = Inr s' \<and> \<not> recording s' \<and> audio_frames s' = [] \<and>
         queue_items s' = queue_items s \<and>
         (queue_full cfg s \<longrightarrow>
            scheduled s' = scheduled s \<and>
            logged s' = logged s @
              [(WARNING, ''Audio queue full or event loop not set, dropping audio frame'')]) \<and>
         (\<not> queue_full cfg s \<and> loop s = Some LoopRunning \<longrightarrow>
            scheduled s' = scheduled s @ [concat (audio_frames s)] \<and>
            logged s' = logged s @ [(DEBUG, ''Queued audio for processing'')]) \<and>
         (loop s = None \<longrightarrow>
            scheduled s' = scheduled s \<and>
            logged s' = logged s @
              [(WARNING, ''Audio queue full or event loop not set, dropping audio frame'')]))) \<and>
   (scheduled u = a # rest \<and> \<not> queue_full cfg u \<longrightarrow>
      loop_put cfg u = Some (u\<lparr>queue_items := queue_items u @ [a], scheduled := rest\<rparr>)) \<and>
   (receiver_run cfg env evs t = Some t' \<longrightarrow>
      dequeued cfg env evs t @ queue_items t' @ scheduled t' =
        queue_items t @ scheduled t @ accepted cfg env evs t)"
proof (intro conjI impI)
  assume ne: "audio_frames s \<noteq> []"
  from stop_recording_Inr [OF ne, of cfg]
  obtain s' where st: "stop_recording cfg s = Inr s'"
    and f: "\<not> recording s'" "audio_frames s' = []" "queue_items s' = queue_items s"
      "scheduled s' =
       (if loop s = Some LoopRunning \<and> \<not> queue_full cfg s
        then scheduled s @ [concat (audio_frames s)] else scheduled s)"
      "logged s' = logged s @
       [if loop s = None \<or> queue_full cfg s
        then (WARNING, ''Audio queue full or event loop not set, dropping audio frame'')
        else if loop s = Some LoopClosed then (ERROR, ''Failed to enqueue audio data'')
        else (DEBUG, ''Queued audio for processing'')]"
    by blast
  have full: "queue_full cfg s \<longrightarrow>
      scheduled s' = scheduled s \<and>
      logged s' = logged s @
        [(WARNING, ''Audio queue full or event loop not set, dropping audio frame'')]"
    using f(4,5) by simp
  have free: "\<not> queue_full cfg s \<and> loop s = Some LoopRunning \<longrightarrow>
      scheduled s' = scheduled s @ [concat (audio_frames s)] \<and>
      logged s' = logged s @ [(DEBUG, ''Queued audio for processing'')]"
    using f(4,5) by simp
  have unset: "loop s = None \<longrightarrow>
      scheduled s' = scheduled s \<and>
      logged s' = logged s @
        [(WARNING, ''Audio queue full or event loop not set, dropping audio frame'')]"
    using f(4,5) by simp
  show "\<exists>s'. stop_recording cfg s = Inr s' \<and> \<not> recording s' \<and> audio_frames s' = [] \<and>
         queue_items s' = queue_items s \<and>
         (queue_full cfg s \<longrightarrow>
            scheduled s' = scheduled s \<and>
            logged s' = logged s @
              [(WARNING, ''Audio queue full or event loop not set, dropping audio frame'')]) \<and>
         (\<not> queue_full cfg s \<and> loop s = Some LoopRunning \<longrightarrow>
            scheduled s' = scheduled s @ [concat (audio_frames s)] \<and>
            logged s' = logged s @ [(DEBUG, ''Queued audio for processing'')]) \<and>
         (loop s = None \<longrightarrow>
            scheduled s' = scheduled s \<and>
            logged s' = logged s @
              [(WARNING, ''Audio queue full or event loop not set, dropping audio frame'')])"
  proof (intro exI [of _ s'] conjI)
    show "stop_recording cfg s = Inr s'" by (rule st)
    show "\<not> recording s'" by (rule f(1))
    show "audio_frames s' = []" by (rule f(2))
    show "queue_items s' = queue_items s" by (rule f(3))
    show "queue_full cfg s \<longrightarrow>
        scheduled s' = scheduled s \<and>
        logged s' = logged s @
          [(WARNING, ''Audio queue full or event loop not set, dropping audio frame'')]"
      by (rule full)
    show "\<not> queue_full cfg s \<and> loop s = Some LoopRunning \<longrightarrow>
        scheduled s' = scheduled s @ [concat (audio_frames s)] \<and>
        logged s' = logged s @ [(DEBUG, ''Queued audio for processing'')]"
      by (rule free)
    show "loop s = None \<longrightarrow>
        scheduled s' = scheduled s \<and>
        logged s' = logged s @
          [(WARNING, ''Audio queue full or event loop not set, dropping audio frame'')]"
      by (rule unset)
  qed
next
  assume "scheduled u = a # rest \<and> \<not> queue_full cfg u"
  then show "loop_put cfg u =
      Some (u\<lparr>queue_items := queue_items u @ [a], scheduled := rest\<rparr>)"
    by (simp add: loop_put_def)
next
  assume "receiver_run cfg env evs t = Some t'"
  then show "dequeued cfg env evs t @ queue_items t' @ scheduled t' =
      queue_items t @ scheduled t @ accepted cfg env evs t"
    by (rule receiver_run_fifo)
qed

theorem handoff_never_blocks_and_is_fifo_witness:
  "map_sum id logged
     (stop_recording example_config
        (started_receiver\<lparr>queue_items := [quiet_block, quiet_block], recording := True,
           audio_frames := [loud_block]\<rparr>)) =
     Inr [(WARNING, ''Audio queue full or event loop not set, dropping audio frame'')] \<and>
   dequeued example_config example_collaborators [LoopPut, DrainStep, DrainStep]
     (started_receiver\<lparr>queue_items := [quiet_block], scheduled := [loud_block]\<rparr>) @
     [loud_block] = [quiet_block, loud_block]"
proof -
  let ?s = "started_receiver\<lparr>queue_items := [quiet_block, quiet_block], recording := True,
           audio_frames := [loud_block]\<rparr>"
  let ?t = "started_receiver\<lparr>queue_items := [quiet_block], scheduled := [loud_block]\<rparr>"
  let ?t1 = "started_receiver\<lparr>queue_items := [quiet_block, loud_block], scheduled := []\<rparr>"
  let ?t2 = "?t1\<lparr>drain := AwaitGet\<rparr>"
  let ?t3 = "started_receiver\<lparr>queue_items := [loud_block], scheduled := [],
     logged := [(DEBUG, ''Sending audio to Google Chirp...'')]\<rparr>"
  let ?evs = "[LoopPut, DrainStep, DrainStep]"
  have s: "audio_frames ?s \<noteq> []" "queue_full example_config ?s" "logged ?s = []"
    by (simp_all add: queue_full_def started_receiver_def init_receiver_def)
  have 1: "receiver_step example_config example_collaborators LoopPut ?t = Some ?t1"
    by (simp add: loop_put_def queue_full_def started_receiver_def init_receiver_def)
  have 2: "receiver_step example_config example_collaborators DrainStep ?t1 = Some ?t2"
    by (simp add: process_audio_queue_step_def started_receiver_def init_receiver_def)
  have 3: "receiver_step example_config example_collaborators DrainStep ?t2 = Some ?t3"
    by (simp add: process_audio_queue_step_def transcribe_audio_def example_collaborators_def
        log_msg_def started_receiver_def init_receiver_def)
  have run: "receiver_run example_config example_collaborators ?evs ?t = Some ?t3"
    unfolding receiver_run.simps 1 2 3 option.case ..
  have t: "queue_items ?t = [quiet_block]" "scheduled ?t = [loud_block]"
    "queue_items ?t3 = [loud_block]" "scheduled ?t3 = []"
    by simp_all
  have acc: "accepted example_config example_collaborators ?evs ?t = []"
    unfolding accepted.simps 1 2 3 option.case by simp
  note inst = handoff_never_blocks_and_is_fifo [of ?s example_config ?t a rest
      example_collaborators ?evs ?t ?t3]
  from inst [THEN conjunct1, THEN mp, OF s(1)]
  obtain s' where st: "stop_recording example_config ?s = Inr s'"
    and full: "queue_full example_config ?s \<longrightarrow>
        scheduled s' = scheduled ?s \<and>
        logged s' = logged ?s @
          [(WARNING, ''Audio queue full or event loop not set, dropping audio frame'')]"
    by (elim exE conjE)
  from full s(2) have lg: "logged s' = logged ?s @
      [(WARNING, ''Audio queue full or event loop not set, dropping audio frame'')]"
    by simp
  have fifo: "dequeued example_config example_collaborators ?evs ?t @ queue_items ?t3 @
      scheduled ?t3 =
      queue_items ?t @ scheduled ?t @ accepted example_config example_collaborators ?evs ?t"
    using inst [THEN conjunct2, THEN conjunct2, THEN mp, OF run] .
  have 4: "map_sum id logged (stop_recording example_config ?s) =
      Inr [(WARNING, ''Audio queue full or event loop not set, dropping audio frame'')]"
    unfolding st using lg s(3) by simp
  have 5: "dequeued example_config example_collaborators ?evs ?t @ [loud_block] =
      [quiet_block, loud_block]"
    using fifo unfolding t acc by simp
  from 4 5 show ?thesis by (rule conjI)
qed

text \<open>
  Against the claim as it was stated: before \<^verbatim>\<open>start()\<close> has stored the loop the queue is
  empty, not full, and yet a completed segment is not enqueued: nothing is scheduled and the
  warning is logged.
\<close>

theorem loop_not_set_dropped_counterexample:
  "\<not> queue_full example_config (init_receiver\<lparr>recording := True, audio_frames := [loud_block]\<rparr>) \<and>
   map_sum id scheduled
     (stop_recording example_config
        (init_receiver\<lparr>recording := True, audio_frames := [loud_block]\<rparr>)) = Inr [] \<and>
   map_sum id logged
     (stop_recording example_config
        (init_receiver\<lparr>recording := True, audio_frames := [loud_block]\<rparr>)) =
     Inr [(WARNING, ''Audio queue full or event loop not set, dropping audio frame'')]"
  by (simp add: stop_recording_def queue_full_def init_receiver_def log_msg_def Let_def)

section \<open>The drain loop\<close>

text \<open>
  One step of \<^verbatim>\<open>_process_audio_queue\<close>, by the place where the coroutine is suspended: the
  shutdown signal is read at the head of the loop and nowhere else, and the dequeue depends
  on the queue alone.
\<close>

lemma process_audio_queue_step_cases:
  "(drain s = LoopHead \<longrightarrow>
      process_audio_queue_step env s =
        Some (s\<lparr>drain := (if terminate_flag s then Returned else AwaitGet)\<rparr>)) \<and>
   (drain s = AwaitGet \<and> queue_items s = [] \<longrightarrow> process_audio_queue_step env s = None) \<and>
   (drain s = AwaitGet \<and> queue_items s = a # rest \<longrightarrow>
      (\<exists>s'. process_audio_queue_step env s = Some s' \<and> drain s' = LoopHead \<and>
         queue_items s' = rest \<and> terminate_flag s' = terminate_flag s \<and>
         (terminate_flag s \<longrightarrow>
            (\<exists>s''. process_audio_queue_step env s' = Some s'' \<and> drain s'' = Returned \<and>
               queue_items s'' = rest)))) \<and>
   (drain s = Returned \<longrightarrow> process_audio_queue_step env s = None)"
proof (intro conjI impI)
  assume "drain s = LoopHead"
  then show "process_audio_queue_step env s =
      Some (s\<lparr>drain := (if terminate_flag s then Returned else AwaitGet)\<rparr>)"
    by (simp add: process_audio_queue_step_def)
next
  assume "drain s = AwaitGet \<and> queue_items s = []"
  then show "process_audio_queue_step env s = None"
    by (simp add: process_audio_queue_step_def)
next
  assume a: "drain s = AwaitGet \<and> queue_items s = a # rest"
  let ?s' = "(transcribe_audio env a (s\<lparr>queue_items := rest\<rparr>))\<lparr>drain := LoopHead\<rparr>"
  have 1: "process_audio_queue_step env s = Some ?s'"
    using a by (simp add: process_audio_queue_step_def)
  have 2: "drain ?s' = LoopHead" "queue_items ?s' = rest"
    "terminate_flag ?s' = terminate_flag s"
    by (simp_all add: transcribe_audio_frame)
  have 3: "terminate_flag s \<longrightarrow>
      (\<exists>s''. process_audio_queue_step env ?s' = Some s'' \<and> drain s'' = Returned \<and>
         queue_items s'' = rest)"
    using 2 by (simp add: process_audio_queue_step_def)
  from 1 2 3
  show "\<exists>s'. process_audio_queue_step env s = Some s' \<and> drain s' = LoopHead \<and>
         queue_items s' = rest \<and> terminate_flag s' = terminate_flag s \<and>
         (terminate_flag s \<longrightarrow>
            (\<exists>s''. process_audio_queue_step env s' = Some s'' \<and> drain s'' = Returned \<and>
               queue_items s'' = rest))"
    by blast
next
  assume "drain s = Returned"
  then show "process_audio_queue_step env s = None"
    by (simp add: process_audio_queue_step_def)
qed

text \<open>
  Claim C7. The claim asks that the drain loop waits for a queue item or for the shutdown
  signal, whichever comes first, and ends once the signal is set, so that after shutdown it
  is not left waiting for an item on an empty queue. The code sets \<^verbatim>\<open>terminate_flag\<close> in
  \<^verbatim>\<open>stop()\<close> to end this loop and the loop tolerates an item \<^verbatim>\<open>None\<close>, but \<^verbatim>\<open>stop()\<close> puts
  nothing into the queue and the dequeue does not look at the flag. So the code misses the
  claim for a loop that is already waiting: the drain loop of a started receiver makes its
  first step and waits for an item, \<^verbatim>\<open>stop()\<close> signals the shutdown, and from then on the
  signal is set, the queue is empty, nothing is scheduled, the loop is still in the dequeue
  and neither the drain loop nor the event loop can make a step.
\<close>

theorem drain_loop_blocked_after_stop:
  "receiver_run example_config example_collaborators [DrainStep, Stop] started_receiver =
     Some (stop (started_receiver\<lparr>drain := AwaitGet\<rparr>)) \<and>
   terminate_flag (stop (started_receiver\<lparr>drain := AwaitGet\<rparr>)) \<and>
   drain (stop (started_receiver\<lparr>drain := AwaitGet\<rparr>)) = AwaitGet \<and>
   queue_items (stop (started_receiver\<lparr>drain := AwaitGet\<rparr>)) = [] \<and>
   scheduled (stop (started_receiver\<lparr>drain := AwaitGet\<rparr>)) = [] \<and>
   receiver_step example_config example_collaborators DrainStep
     (stop (started_receiver\<lparr>drain := AwaitGet\<rparr>)) = None \<and>
   receiver_step example_config example_collaborators LoopPut
     (stop (started_receiver\<lparr>drain := AwaitGet\<rparr>)) = None"
  by (simp add: process_audio_queue_step_def loop_put_def stop_def started_receiver_def
      init_receiver_def)

section \<open>Transcription\<close>

lemma chirp_transcribe_Inr: "\<exists>lg r. chirp_transcribe tc w c a = (lg, Inr r)"
  by (cases "chirp_try tc w c a") (auto simp: chirp_transcribe_def split: sum.splits)

lemma whisper_transcribe_Inr: "\<exists>lg r. whisper_transcribe tc w c a = (lg, Inr r)"
  by (cases "whisper_try tc w c a") (auto simp: whisper_transcribe_def split: sum.splits)

text \<open>
  Claim C8, as amended. For every utterance buffer, \<^verbatim>\<open>transcribe\<close> of either backend
  returns and never passes an exception on: whatever the \<^verbatim>\<open>try\<close> raises is logged as an
  error and the result is absent, in particular when the service call fails. The Chirp
  backend also returns an absent result, without an error, when the response holds no
  result. The Whisper backend has no absent result for that case: whenever the call
  succeeds it returns a present result with the text of the response stripped, which is
  the empty text when no speech was recognised. Whatever a \<^verbatim>\<open>transcribe\<close> does, even one that
  raises, \<^verbatim>\<open>_transcribe_audio\<close> returns and the drain loop is back at the head of its loop.
\<close>

theorem transcribe_never_raises:
  "(\<exists>lg r. chirp_transcribe tc w c a = (lg, Inr r)) \<and>
   (\<exists>lg r. whisper_transcribe tc w c' a = (lg, Inr r)) \<and>
   (chirp_try tc w c a = (lg, Inl e) \<longrightarrow>
      chirp_transcribe tc w c a =
        (lg @ [(ERROR, ''Google Chirp transcription error'')], Inr None)) \<and>
   (whisper_try tc w c' a = (lg, Inl e) \<longrightarrow>
      whisper_transcribe tc w c' a =
        (lg @ [(ERROR, ''Whisper transcription error'')], Inr None)) \<and>
   (w a (tc_sample_rate tc) = Inr b \<and> c = Some recognize \<and> (\<forall>req. recognize req = Inl e) \<longrightarrow>
      chirp_transcribe tc w c a =
        ([(DEBUG, ''Sending audio to Google Chirp...''),
          (ERROR, ''Google Chirp transcription error'')], Inr None)) \<and>
   (w a (tc_sample_rate tc) = Inr b \<and> c' = Some create \<and> (\<forall>req. create req = Inl e) \<longrightarrow>
      whisper_transcribe tc w c' a =
        ([(DEBUG, ''Sending audio to Whisper...''),
          (ERROR, ''Whisper transcription error'')], Inr None)) \<and>
   (w a (tc_sample_rate tc) = Inr b \<and> c = Some recognize \<and> (\<forall>req. recognize req = Inr []) \<longrightarrow>
      chirp_transcribe tc w c a = ([(DEBUG, ''Sending audio to Google Chirp...'')], Inr None)) \<and>
   (w a (tc_sample_rate tc) = Inr b \<and> c' = Some create \<and> (\<forall>req. create req = Inr resp) \<and>
      resp ''text'' = Some t \<longrightarrow>
      whisper_transcribe tc w c' a =
        ([(DEBUG, ''Sending audio to Whisper...'')],
         Inr (Some \<lparr>result_text = py_strip t, confidence = 1,
                    result_language = tc_language tc\<rparr>))) \<and>
   (drain s = AwaitGet \<and> queue_items s = a # rest \<longrightarrow>
      (\<exists>s'. process_audio_queue_step env s = Some s' \<and> drain s' = LoopHead))"
proof (intro conjI impI)
  show "\<exists>lg r. chirp_transcribe tc w c a = (lg, Inr r)" by (rule chirp_transcribe_Inr)
  show "\<exists>lg r. whisper_transcribe tc w c' a = (lg, Inr r)" by (rule whisper_transcribe_Inr)
next
  assume "chirp_try tc w c a = (lg, Inl e)"
  then show "chirp_transcribe tc w c a =
      (lg @ [(ERROR, ''Google Chirp transcription error'')], Inr None)"
    by (simp add: chirp_transcribe_def)
next
  assume "whisper_try tc w c' a = (lg, Inl e)"
  then show "whisper_transcribe tc w c' a =
      (lg @ [(ERROR, ''Whisper transcription error'')], Inr None)"
    by (simp add: whisper_transcribe_def)
next
  assume "w a (tc_sample_rate tc) = Inr b \<and> c = Some recognize \<and> (\<forall>req. recognize req = Inl e)"
  then show "chirp_transcribe tc w c a =
      ([(DEBUG, ''Sending audio to Google Chirp...''),
        (ERROR, ''Google Chirp transcription error'')], Inr None)"
    by (simp add: chirp_transcribe_def chirp_try_def Let_def)
next
  assume "w a (tc_sample_rate tc) = Inr b \<and> c' = Some create \<and> (\<forall>req. create req = Inl e)"
  then show "whisper_transcribe tc w c' a =
      ([(DEBUG, ''Sending audio to Whisper...''),
        (ERROR, ''Whisper transcription error'')], Inr None)"
    by (simp add: whisper_transcribe_def whisper_try_def Let_def)
next
  assume "w a (tc_sample_rate tc) = Inr b \<and> c = Some recognize \<and> (\<forall>req. recognize req = Inr [])"
  then show "chirp_transcribe tc w c a =
      ([(DEBUG, ''Sending audio to Google Chirp...'')], Inr None)"
    by (simp add: chirp_transcribe_def chirp_try_def Let_def)
next
  assume "w a (tc_sample_rate tc) = Inr b \<and> c' = Some create \<and>
      (\<forall>req. create req = Inr resp) \<and> resp ''text'' = Some t"
  then show "whisper_transcribe tc w c' a =
      ([(DEBUG, ''Sending audio to Whisper...'')],
       Inr (Some \<lparr>result_text = py_strip t, confidence = 1,
                  result_language = tc_language tc\<rparr>))"
    by (simp add: whisper_transcribe_def whisper_try_def Let_def)
next
  assume "drain s = AwaitGet \<and> queue_items s = a # rest"
  then show "\<exists>s'. process_audio_queue_step env s = Some s' \<and> drain s' = LoopHead"
    by (simp add: process_audio_queue_step_def)
qed

theorem transcribe_never_raises_witness:
  "chirp_transcribe example_transcription_config example_sf_write
     (Some failing_speech_client) quiet_block =
     ([(DEBUG, ''Sending audio to Google Chirp...''),
       (ERROR, ''Google Chirp transcription error'')], Inr None) \<and>
   chirp_transcribe example_transcription_config example_sf_write
     (Some empty_speech_client) quiet_block =
     ([(DEBUG, ''Sending audio to Google Chirp...'')], Inr None)"
proof -
  have 1: "example_sf_write quiet_block (tc_sample_rate example_transcription_config) =
      Inr ''RIFF''"
    by (simp add: example_sf_write_def)
  have 2: "\<forall>req. failing_speech_client req = Inl (OtherException ''ServiceUnavailable'')"
    by (simp add: failing_speech_client_def)
  have 3: "\<forall>req. empty_speech_client req = Inr []"
    by (simp add: empty_speech_client_def)
  from transcribe_never_raises [where tc = example_transcription_config
      and w = example_sf_write and c = "Some failing_speech_client" and a = quiet_block
      and b = "''RIFF''" and recognize = failing_speech_client
      and e = "OtherException ''ServiceUnavailable''"] 1 2
  have a: "chirp_transcribe example_transcription_config example_sf_write
     (Some failing_speech_client) quiet_block =
     ([(DEBUG, ''Sending audio to Google Chirp...''),
       (ERROR, ''Google Chirp transcription error'')], Inr None)"
    by blast
  from transcribe_never_raises [where tc = example_transcription_config
      and w = example_sf_write and c = "Some empty_speech_client" and a = quiet_block
      and b = "''RIFF''" and recognize = empty_speech_client] 1 3
  have b: "chirp_transcribe example_transcription_config example_sf_write
     (Some empty_speech_client) quiet_block =
     ([(DEBUG, ''Sending audio to Google Chirp...'')], Inr None)"
    by blast
  from a b show ?thesis by blast
qed

text \<open>
  Against the claim as it was stated: a Whisper response with an empty text, no speech
  recognised, gives a present result with the empty text and not an absent one.
\<close>

theorem whisper_no_speech_present_counterexample:
  "snd (whisper_transcribe example_transcription_config example_sf_write
     (Some silent_whisper_client) quiet_block) =
     Inr (Some \<lparr>result_text = [], confidence = 1, result_language = ''en-US''\<rparr>)"
  by (simp add: whisper_transcribe_def whisper_try_def Let_def example_sf_write_def
      silent_whisper_client_def example_transcription_config_def py_strip_def)

section \<open>The result sink\<close>

lemma transcribe_audio_sink_calls:
  "sink_calls (transcribe_audio env a s) =
     sink_calls s @
       (case snd (transcription_service env a) of
          Inl e \<Rightarrow> []
        | Inr None \<Rightarrow> []
        | Inr (Some r) \<Rightarrow> if result_text r = [] then [] else [result_text r])"
  by (simp add: transcribe_audio_def Let_def split: prod.splits sum.splits option.splits)

text \<open>
  Claim C9. Processing an utterance calls the result sink at most once. The calls made are
  those made before, followed by one call with exactly the text of the result if the
  backend returned a present result whose text is not empty, and by nothing if the backend
  raised, returned an absent result or returned a result with the empty text. This holds
  for \<^verbatim>\<open>_transcribe_audio\<close> and so for the step of the drain loop that takes an utterance
  from the queue.
\<close>

theorem sink_called_iff_text_nonempty:
  "sink_calls (transcribe_audio env a s) =
     sink_calls s @
       (case snd (transcription_service env a) of
          Inl e \<Rightarrow> []
        | Inr None \<Rightarrow> []
        | Inr (Some r) \<Rightarrow> if result_text r = [] then [] else [result_text r]) \<and>
   (drain s = AwaitGet \<and> queue_items s = a # rest \<longrightarrow>
      (\<exists>s'. process_audio_queue_step env s = Some s' \<and>
         sink_calls s' =
           sink_calls s @
             (case snd (transcription_service env a) of
                Inl e \<Rightarrow> []
              | Inr None \<Rightarrow> []
              | Inr (Some r) \<Rightarrow> if result_text r = [] then [] else [result_text r])))"
proof (intro conjI impI)
  show "sink_calls (transcribe_audio env a s) =
     sink_calls s @
       (case snd (transcription_service env a) of
          Inl e \<Rightarrow> []
        | Inr None \<Rightarrow> []
        | Inr (Some r) \<Rightarrow> if result_text r = [] then [] else [result_text r])"
    by (rule transcribe_audio_sink_calls)
next
  assume a: "drain s = AwaitGet \<and> queue_items s = a # rest"
  let ?s' = "(transcribe_audio env a (s\<lparr>queue_items := rest\<rparr>))\<lparr>drain := LoopHead\<rparr>"
  have 1: "process_audio_queue_step env s = Some ?s'"
    using a by (simp add: process_audio_queue_step_def)
  have 2: "sink_calls ?s' =
      sink_calls s @
        (case snd (transcription_service env a) of
           Inl e \<Rightarrow> []
         | Inr None \<Rightarrow> []
         | Inr (Some r) \<Rightarrow> if result_text r = [] then [] else [result_text r])"
    using transcribe_audio_sink_calls [of env a "s\<lparr>queue_items := rest\<rparr>"] by simp
  from 1 2
  show "\<exists>s'. process_audio_queue_step env s = Some s' \<and>
         sink_calls s' =
           sink_calls s @
             (case snd (transcription_service env a) of
                Inl e \<Rightarrow> []
              | Inr None \<Rightarrow> []
              | Inr (Some r) \<Rightarrow> if result_text r = [] then [] else [result_text r])"
    by blast
qed

theorem sink_called_iff_text_nonempty_witness:
  "sink_calls (transcribe_audio speaking_collaborators quiet_block started_receiver) =
     [''launch''] \<and>
   sink_calls (transcribe_audio example_collaborators quiet_block started_receiver) = []"
proof -
  have 1: "snd (transcription_service speaking_collaborators quiet_block) =
      Inr (Some \<lparr>result_text = ''launch'', confidence = 1, result_language = ''en-US''\<rparr>)"
    by (simp add: speaking_collaborators_def)
  have 2: "snd (transcription_service example_collaborators quiet_block) = Inr None"
    by (simp add: example_collaborators_def)
  have 3: "sink_calls started_receiver = []"
    by (simp add: started_receiver_def init_receiver_def)
  from sink_called_iff_text_nonempty [of speaking_collaborators quiet_block started_receiver]
  have a: "sink_calls (transcribe_audio speaking_collaborators quiet_block started_receiver) =
      [''launch'']"
    unfolding 1 3 by simp
  from sink_called_iff_text_nonempty [of example_collaborators quiet_block started_receiver]
  have b: "sink_calls (transcribe_audio example_collaborators quiet_block started_receiver) = []"
    unfolding 2 3 by simp
  from a b show ?thesis by blast
qed

end
